theory Spec2Isabelle
  imports Complex_Main "HOL-Library.Log_Nat"
begin

section \<open>The ADM filter of libavfilter/vf_adm.c\<close>

text \<open>
  The development follows \<^verbatim>\<open>libavfilter/vf_adm.c\<close>. C \<^verbatim>\<open>int\<close> values are
  modelled as \<^typ>\<open>int\<close>; where a value is stored into a narrower object, or where a
  32-bit computation can leave its range, the two's complement wrap-around is written out.
\<close>

subsection \<open>Integer helpers\<close>

text \<open>\<^verbatim>\<open>#define FFABS(a) ((a) >= 0 ? (a) : (-(a)))\<close>\<close>

definition FFABS :: "int \<Rightarrow> int" where
  "FFABS a = (if a \<ge> 0 then a else - a)"

subsection \<open>Mirror boundary indexing\<close>

text \<open>
  The DWT passes (lines 343-348 and 369-374) and the masking filter (lines 258-268) all
  turn a tap position into a source index in the same way:
  \<^verbatim>\<open>src_i = FFABS(src_i); if (src_i >= h) src_i = 2 * h - src_i - 1;\<close>
\<close>

definition mirror :: "int \<Rightarrow> int \<Rightarrow> int" where
  "mirror n k = (let k' = FFABS k in if k' \<ge> n then 2 * n - k' - 1 else k')"

text \<open>\<^verbatim>\<open>src_i = 2 * i - 1 + filt_i\<close> in \<^verbatim>\<open>adm_dwt2_fn\<close>.\<close>

definition dwt_src_index :: "int \<Rightarrow> int \<Rightarrow> int \<Rightarrow> int" where
  "dwt_src_index n i filt_i = mirror n (2 * i - 1 + filt_i)"

text \<open>\<^verbatim>\<open>src_i = i - 1 + filt_i\<close> in \<^verbatim>\<open>adm_cm_thresh\<close>.\<close>

definition cm_src_index :: "int \<Rightarrow> int \<Rightarrow> int \<Rightarrow> int" where
  "cm_src_index n i filt_i = mirror n (i - 1 + filt_i)"

subsection \<open>Machine integers\<close>

text \<open>
  Stores into \<^verbatim>\<open>int16_t\<close> objects and 32-bit \<^verbatim>\<open>int\<close> arithmetic that can leave its
  range wrap around in two's complement (what the compiled code does; ISO C leaves signed
  overflow undefined).
\<close>

definition s16 :: "int \<Rightarrow> int" where
  "s16 x = (x + 2 ^ 15) mod 2 ^ 16 - 2 ^ 15"

definition s32 :: "int \<Rightarrow> int" where
  "s32 x = (x + 2 ^ 31) mod 2 ^ 32 - 2 ^ 31"

text \<open>\<^verbatim>\<open>#define BIT_SHIFT 15\<close>; \<^verbatim>\<open>x >> BIT_SHIFT\<close> is an arithmetic shift.\<close>

definition BIT_SHIFT :: nat where
  "BIT_SHIFT = 15"

definition shr :: "int \<Rightarrow> nat \<Rightarrow> int" where
  "shr x n = x div 2 ^ n"

subsection \<open>Floating point\<close>

text \<open>
  A \<^verbatim>\<open>float\<close> or \<^verbatim>\<open>double\<close> value is a finite rational, an infinity or a NaN.
  Every arithmetic operation rounds its exact result to the precision of its C type
  (24 bits for \<^verbatim>\<open>float\<close>, 53 bits for \<^verbatim>\<open>double\<close>), to nearest with ties to even.
  Exponent range and signed zeros are not modelled: the finite values that occur in this
  file stay far inside the normal range of both formats, and the only division by zero
  has the divisor \<^verbatim>\<open>+0.0\<close> converted from an \<^verbatim>\<open>int\<close>.
\<close>

datatype fval = Fin rat | PInf | NInf | NaN

text \<open>Round to the nearest integer, ties to even (\<^verbatim>\<open>lrint\<close> in the default mode).\<close>

definition rne :: "rat \<Rightarrow> int" where
  "rne x = (let f = \<lfloor>x\<rfloor>; r = x - of_int f in
            if r < 1 / 2 then f else if 1 / 2 < r then f + 1
            else if even f then f else f + 1)"

lemma floor_half_less:
  fixes y :: rat
  assumes "1 < y"
  shows "\<lfloor>y / 2\<rfloor> < \<lfloor>y\<rfloor>"
proof -
  have a: "y < of_int \<lfloor>y\<rfloor> + 1" by linarith
  have "0 < \<lfloor>y\<rfloor>" using assms by (simp add: less_floor_iff)
  then have b: "(1::rat) \<le> of_int \<lfloor>y\<rfloor>" by linarith
  have "y / 2 < of_int \<lfloor>y\<rfloor>" using a b by linarith
  then show ?thesis by (simp only: floor_less_iff)
qed

text \<open>The binary exponent \<open>e\<close> of \<open>x\<close>, with \<open>2 ^ e \<le> \<bar>x\<bar> < 2 ^ (e + 1)\<close>.\<close>

function ilog2_up :: "rat \<Rightarrow> int" where
  "ilog2_up x = (if x < 2 then 0 else ilog2_up (x / 2) + 1)"
  by pat_completeness auto
termination
proof (relation "measure (\<lambda>x. nat \<lfloor>x\<rfloor>)")
  show "wf (measure (\<lambda>x::rat. nat \<lfloor>x\<rfloor>))" by simp
next
  fix x :: rat
  assume "\<not> x < 2"
  then have "1 < x" by simp
  then have lt: "\<lfloor>x / 2\<rfloor> < \<lfloor>x\<rfloor>" by (rule floor_half_less)
  have "0 < \<lfloor>x\<rfloor>" using \<open>1 < x\<close> by (simp add: less_floor_iff)
  with lt have "nat \<lfloor>x / 2\<rfloor> < nat \<lfloor>x\<rfloor>" by linarith
  then show "(x / 2, x) \<in> measure (\<lambda>x. nat \<lfloor>x\<rfloor>)" unfolding in_measure .
qed

function ilog2_dn :: "rat \<Rightarrow> int" where
  "ilog2_dn x = (if x \<le> 0 \<or> 1 \<le> x then 0 else ilog2_dn (2 * x) - 1)"
  by pat_completeness auto
termination
proof (relation "measure (\<lambda>x. nat \<lfloor>1 / x\<rfloor>)")
  show "wf (measure (\<lambda>x::rat. nat \<lfloor>1 / x\<rfloor>))" by simp
next
  fix x :: rat
  assume "\<not> (x \<le> 0 \<or> 1 \<le> x)"
  then have x: "0 < x" "x < 1" by simp_all
  then have one: "1 < 1 / x" by simp
  then have pos: "0 < \<lfloor>1 / x\<rfloor>" by (simp add: less_floor_iff)
  have eq: "1 / (2 * x) = (1 / x) / 2" by simp
  have lt: "\<lfloor>1 / (2 * x)\<rfloor> < \<lfloor>1 / x\<rfloor>"
    unfolding eq by (rule floor_half_less [OF one])
  have "nat \<lfloor>1 / (2 * x)\<rfloor> < nat \<lfloor>1 / x\<rfloor>"
    using lt pos by linarith
  then show "(2 * x, x) \<in> measure (\<lambda>x. nat \<lfloor>1 / x\<rfloor>)"
    unfolding in_measure .
qed

definition ilog2 :: "rat \<Rightarrow> int" where
  "ilog2 x = (if 1 \<le> \<bar>x\<bar> then ilog2_up \<bar>x\<bar> else ilog2_dn \<bar>x\<bar>)"

text \<open>Rounding of an exact value to \<open>p\<close> significant bits.\<close>

definition fl :: "nat \<Rightarrow> rat \<Rightarrow> rat" where
  "fl p x = (if x = 0 then 0
             else let u = 2 powi (ilog2 x - int p + 1) in of_int (rne (x / u)) * u)"

definition fp_sgn :: "fval \<Rightarrow> int" where
  "fp_sgn v = (case v of Fin x \<Rightarrow> (if 0 < x then 1 else if x < 0 then - 1 else 0)
                       | PInf \<Rightarrow> 1 | NInf \<Rightarrow> - 1 | NaN \<Rightarrow> 0)"

definition fp_of_sgn :: "int \<Rightarrow> fval" where
  "fp_of_sgn s = (if 0 < s then PInf else if s < 0 then NInf else NaN)"

definition fp_round :: "nat \<Rightarrow> fval \<Rightarrow> fval" where
  "fp_round p v = (case v of Fin x \<Rightarrow> Fin (fl p x) | _ \<Rightarrow> v)"

definition fp_neg :: "fval \<Rightarrow> fval" where
  "fp_neg v = (case v of Fin x \<Rightarrow> Fin (- x) | PInf \<Rightarrow> NInf | NInf \<Rightarrow> PInf | NaN \<Rightarrow> NaN)"

definition fp_add :: "nat \<Rightarrow> fval \<Rightarrow> fval \<Rightarrow> fval" where
  "fp_add p a b =
     (case (a, b) of
        (Fin x, Fin y) \<Rightarrow> Fin (fl p (x + y))
      | (NaN, _) \<Rightarrow> NaN
      | (_, NaN) \<Rightarrow> NaN
      | (Fin x, _) \<Rightarrow> b
      | (_, Fin y) \<Rightarrow> a
      | _ \<Rightarrow> (if a = b then a else NaN))"

definition fp_sub :: "nat \<Rightarrow> fval \<Rightarrow> fval \<Rightarrow> fval" where
  "fp_sub p a b = fp_add p a (fp_neg b)"

definition fp_mul :: "nat \<Rightarrow> fval \<Rightarrow> fval \<Rightarrow> fval" where
  "fp_mul p a b =
     (case (a, b) of
        (Fin x, Fin y) \<Rightarrow> Fin (fl p (x * y))
      | _ \<Rightarrow> fp_of_sgn (fp_sgn a * fp_sgn b))"

definition fp_div :: "nat \<Rightarrow> fval \<Rightarrow> fval \<Rightarrow> fval" where
  "fp_div p a b =
     (case (a, b) of
        (Fin x, Fin y) \<Rightarrow> (if y = 0 then fp_of_sgn (fp_sgn a) else Fin (fl p (x / y)))
      | (NaN, _) \<Rightarrow> NaN
      | (_, NaN) \<Rightarrow> NaN
      | (Fin x, _) \<Rightarrow> Fin 0
      | (_, Fin y) \<Rightarrow> (if y < 0 then fp_neg a else a)
      | _ \<Rightarrow> NaN)"

text \<open>Comparisons; every comparison with a NaN is false.\<close>

definition fp_less :: "fval \<Rightarrow> fval \<Rightarrow> bool" where
  "fp_less a b =
     (case (a, b) of
        (Fin x, Fin y) \<Rightarrow> x < y
      | (NaN, _) \<Rightarrow> False
      | (_, NaN) \<Rightarrow> False
      | (NInf, _) \<Rightarrow> b \<noteq> NInf
      | (_, PInf) \<Rightarrow> a \<noteq> PInf
      | _ \<Rightarrow> False)"

definition fp_le :: "fval \<Rightarrow> fval \<Rightarrow> bool" where
  "fp_le a b = (a \<noteq> NaN \<and> b \<noteq> NaN \<and> (a = b \<or> fp_less a b))"

text \<open>\<^verbatim>\<open>ceil\<close>.\<close>

definition fp_ceil :: "fval \<Rightarrow> fval" where
  "fp_ceil v = (case v of Fin x \<Rightarrow> Fin (of_int \<lceil>x\<rceil>) | _ \<Rightarrow> v)"

text \<open>
  Conversion of a floating value to \<^verbatim>\<open>int\<close> truncates towards zero. A NaN, an infinity
  and a value outside the 32-bit range have no defined result in ISO C; the model takes
  what the x86-64 conversion instruction delivers, \<^verbatim>\<open>INT_MIN\<close>. A conversion to
  \<^verbatim>\<open>int16_t\<close> keeps the low 16 bits of that.
\<close>

definition trunc0 :: "rat \<Rightarrow> int" where
  "trunc0 x = (if 0 \<le> x then \<lfloor>x\<rfloor> else \<lceil>x\<rceil>)"

definition fp_to_int :: "fval \<Rightarrow> int" where
  "fp_to_int v =
     (case v of
        Fin x \<Rightarrow> (let t = trunc0 x in if - (2 ^ 31) \<le> t \<and> t < 2 ^ 31 then t else - (2 ^ 31))
      | _ \<Rightarrow> - (2 ^ 31))"

definition fp_to_int16 :: "fval \<Rightarrow> int" where
  "fp_to_int16 v = s16 (fp_to_int v)"

text \<open>\<^verbatim>\<open>lrint\<close>, whose result type \<^verbatim>\<open>long\<close> has 64 bits.\<close>

definition lrint :: "fval \<Rightarrow> int" where
  "lrint v =
     (case v of
        Fin x \<Rightarrow> (let t = rne x in if - (2 ^ 63) \<le> t \<and> t < 2 ^ 63 then t else - (2 ^ 63))
      | _ \<Rightarrow> - (2 ^ 63))"

text \<open>An \<^verbatim>\<open>int\<close> converted to \<^verbatim>\<open>float\<close> (24) or \<^verbatim>\<open>double\<close> (53); a decimal literal.\<close>

definition fp_of_int :: "nat \<Rightarrow> int \<Rightarrow> fval" where
  "fp_of_int p n = Fin (fl p (of_int n))"

definition fp_lit :: "nat \<Rightarrow> rat \<Rightarrow> fval" where
  "fp_lit p x = Fin (fl p x)"

subsection \<open>Contrast masking: the filter coefficient\<close>

text \<open>
  Lines 255-256 of \<^verbatim>\<open>adm_cm_thresh\<close>:
  \<^verbatim>\<open>filt_coeff = (lrint((filt_i == 1 && filt_j == 1) ? 1.0 / 15.0 : 1.0 / 30.0) * (1 << BIT_SHIFT));\<close>
  The argument of \<^verbatim>\<open>lrint\<close> is the tap value itself; the product with
  \<^verbatim>\<open>1 << BIT_SHIFT\<close> is taken afterwards, in integers.
\<close>

definition cm_filt_coeff :: "int \<Rightarrow> int \<Rightarrow> int" where
  "cm_filt_coeff filt_i filt_j =
     s32 (lrint (if filt_i = 1 \<and> filt_j = 1
                 then fp_div 53 (fp_lit 53 1) (fp_lit 53 15)
                 else fp_div 53 (fp_lit 53 1) (fp_lit 53 30)) * 2 ^ BIT_SHIFT)"

text \<open>
  The quantisation used for the other fixed-point tables of the file, e.g.
  \<^verbatim>\<open>lrint((1.0 / Q[scale][0]) * (1 << BIT_SHIFT))\<close> in \<^verbatim>\<open>adm_csf\<close>: the product is
  the argument of \<^verbatim>\<open>lrint\<close>.
\<close>

definition quantize_q15 :: "fval \<Rightarrow> int" where
  "quantize_q15 x = lrint (fp_mul 53 x (fp_of_int 53 (2 ^ BIT_SHIFT)))"

subsection \<open>Decoupling\<close>

text \<open>
  \<^verbatim>\<open>const float cos_1deg_sq = cos(1.0 * M_PI / 180.0) * cos(1.0 * M_PI / 180.0);\<close> is the
  \<^verbatim>\<open>float\<close> nearest to \<open>cos\<^sup>2 1\<degree>\<close>, \<^verbatim>\<open>0x1.ffd814p-1\<close>;
  \<^verbatim>\<open>const float eps = 1e-30;\<close>
\<close>

definition cos_1deg_sq :: fval where
  "cos_1deg_sq = Fin (8386053 / 8388608)"

definition eps :: fval where
  "eps = fp_lit 24 (1 / 10 ^ 30)"

text \<open>
  \<^verbatim>\<open>#define DIVS(n, d) ((n) * (1.0 / d))\<close> does not parenthesise \<^verbatim>\<open>d\<close>, so
  \<^verbatim>\<open>DIVS(th, oh + eps)\<close> of line 160 expands to \<^verbatim>\<open>((th) * (1.0 / oh + eps))\<close>,
  evaluated in \<^verbatim>\<open>double\<close>.
\<close>

definition DIVS_plus_eps :: "int \<Rightarrow> int \<Rightarrow> fval" where
  "DIVS_plus_eps n d =
     fp_mul 53 (fp_of_int 53 n) (fp_add 53 (fp_div 53 (fp_lit 53 1) (fp_of_int 53 d)) eps)"

text \<open>\<^verbatim>\<open>kh = kh < 0 ? 0 : (kh > 1 ? 1 : kh);\<close>\<close>

definition clamp01 :: "fval \<Rightarrow> fval" where
  "clamp01 k = (if fp_less k (Fin 0) then Fin 0 else if fp_less (Fin 1) k then Fin 1 else k)"

text \<open>Lines 160 and 164: the gain \<^verbatim>\<open>kh\<close>, a \<^verbatim>\<open>float\<close>, then clamped.\<close>

definition decouple_gain :: "int \<Rightarrow> int \<Rightarrow> fval" where
  "decouple_gain tx ox = clamp01 (fp_round 24 (DIVS_plus_eps tx ox))"

text \<open>Line 168: \<^verbatim>\<open>tmph = kh * oh;\<close>\<close>

definition decouple_tmp :: "int \<Rightarrow> int \<Rightarrow> fval" where
  "decouple_tmp tx ox = fp_mul 24 (decouple_gain tx ox) (fp_of_int 24 ox)"

text \<open>
  Lines 172-177. The three sums are computed in \<^verbatim>\<open>int\<close> and stored into \<^verbatim>\<open>float\<close>
  variables; the products of the test are \<^verbatim>\<open>float\<close> products.
\<close>

definition angle_flag :: "int \<Rightarrow> int \<Rightarrow> int \<Rightarrow> int \<Rightarrow> bool" where
  "angle_flag oh ov th tv =
     (let ot_dp = fp_of_int 24 (s32 (oh * th + ov * tv));
          o_mag_sq = fp_of_int 24 (s32 (oh * oh + ov * ov));
          t_mag_sq = fp_of_int 24 (s32 (th * th + tv * tv))
      in fp_le (Fin 0) ot_dp
         \<and> fp_le (fp_mul 24 (fp_mul 24 cos_1deg_sq o_mag_sq) t_mag_sq) (fp_mul 24 ot_dp ot_dp))"

text \<open>
  Lines 179-191 for one orientation: the restored and the additive sample stored for a
  distorted sample \<open>tx\<close> and a reference sample \<open>ox\<close>.
\<close>

definition decouple_out :: "bool \<Rightarrow> int \<Rightarrow> int \<Rightarrow> int \<times> int" where
  "decouple_out flag tx ox =
     (let tmp = (if flag then fp_of_int 24 tx else decouple_tmp tx ox)
      in (fp_to_int16 (fp_ceil tmp),
          fp_to_int16 (fp_ceil (fp_sub 24 (fp_of_int 24 tx) tmp))))"

text \<open>
  The body of the pixel loop of \<^verbatim>\<open>adm_decouple\<close>: from the reference samples
  \<open>(oh, ov, od)\<close> and the distorted samples \<open>(th, tv, td)\<close> to the restored samples and
  the additive samples, each in the order H, V, D.
\<close>

definition adm_decouple_pixel ::
  "int \<times> int \<times> int \<Rightarrow> int \<times> int \<times> int \<Rightarrow> (int \<times> int \<times> int) \<times> (int \<times> int \<times> int)" where
  "adm_decouple_pixel ref main =
     (case (ref, main) of ((oh, ov, od), (th, tv, td)) \<Rightarrow>
        let flag = angle_flag oh ov th tv;
            h = decouple_out flag th oh;
            v = decouple_out flag tv ov;
            d = decouple_out flag td od
        in ((fst h, fst v, fst d), (snd h, snd v, snd d)))"

text \<open>
  The gain as the specification words it, \<open>k = distorted / (reference + \<epsilon>)\<close>, clamped to
  \<open>[0, 1]\<close>, and the provisional restored value \<open>k \<cdot> reference\<close>.
\<close>

definition gain_spec :: "int \<Rightarrow> int \<Rightarrow> fval" where
  "gain_spec tx ox = clamp01 (fp_div 24 (fp_of_int 24 tx) (fp_add 24 (fp_of_int 24 ox) eps))"

definition tmp_spec :: "int \<Rightarrow> int \<Rightarrow> fval" where
  "tmp_spec tx ox = fp_mul 24 (gain_spec tx ox) (fp_of_int 24 ox)"

text \<open>
  For a non-zero reference sample every operation of the gain is finite; \<open>gain_q\<close> is
  the value of \<^verbatim>\<open>kh\<close> of line 160 then, and \<open>clamp_q\<close> the clamp of line 164 on it.
\<close>

definition gain_q :: "int \<Rightarrow> int \<Rightarrow> rat" where
  "gain_q tx ox =
     fl 24 (fl 53 (of_int tx * fl 53 (fl 53 (1 / of_int ox) + 332307 / 332306998946228968225951765070086144)))"

definition clamp_q :: "rat \<Rightarrow> rat" where
  "clamp_q k = (if k < 0 then 0 else if 1 < k then 1 else k)"

text \<open>The range of an \<^verbatim>\<open>int16_t\<close> sample.\<close>

definition is_int16 :: "int \<Rightarrow> bool" where
  "is_int16 x = (- 32768 \<le> x \<and> x \<le> 32767)"

subsection \<open>Energy pooling\<close>

text \<open>
  \<^verbatim>\<open>static int32_t get_cube(int16_t val) { return val * val * val; }\<close>: the argument
  is converted to \<^verbatim>\<open>int16_t\<close>, the product is a 32-bit \<^verbatim>\<open>int\<close>.
\<close>

definition get_cube :: "int \<Rightarrow> int" where
  "get_cube v = (let val = s16 v in s32 (val * val * val))"

text \<open>\<^verbatim>\<open>#define ADM_BORDER_FACTOR (0.1)\<close>\<close>

definition ADM_BORDER_FACTOR :: fval where
  "ADM_BORDER_FACTOR = fp_lit 53 (1 / 10)"

text \<open>
  \<^verbatim>\<open>int left = w * border_factor - 0.5;\<close> (and \<^verbatim>\<open>top\<close> likewise from \<^verbatim>\<open>h\<close>):
  a \<^verbatim>\<open>double\<close> expression converted to \<^verbatim>\<open>int\<close>.
\<close>

definition border :: "int \<Rightarrow> int" where
  "border w = fp_to_int (fp_sub 53 (fp_mul 53 (fp_of_int 53 w) ADM_BORDER_FACTOR) (fp_lit 53 (1 / 2)))"

text \<open>
  \<^verbatim>\<open>cbrt\<close> is a function of the C library, and ISO C does not fix its accuracy. The
  model follows the implementation of the GNU C library
  (\<^verbatim>\<open>sysdeps/ieee754/dbl-64/s_cbrt.c\<close>, version 2.39), operation by operation in
  \<^verbatim>\<open>double\<close> arithmetic: \<^verbatim>\<open>frexp\<close> reduces the argument to \<open>xm\<close> in \<open>[1/2, 1)\<close> and
  an exponent \<open>xe\<close>, a polynomial in \<open>xm\<close> gives a first approximation \<open>u\<close>, one step
  \<open>u (t2 + 2 xm) / (2 t2 + xm)\<close> with \<open>t2 = u\<^sup>3\<close> refines it, the result is multiplied by
  \<^verbatim>\<open>factor[2 + xe % 3]\<close> and scaled by \<^verbatim>\<open>ldexp\<close> with \<^verbatim>\<open>xe / 3\<close>. The result is
  not always the correctly rounded cube root: \<^verbatim>\<open>cbrt(27.0)\<close> is \<open>3 + 2\<^sup>-\<^sup>5\<^sup>1\<close>, so that
  \<^verbatim>\<open>ceil(cbrt(27.0))\<close> is 4.
\<close>

text \<open>The C operators \<^verbatim>\<open>/\<close> and \<^verbatim>\<open>%\<close> on \<^verbatim>\<open>int\<close>, which truncate towards zero.\<close>

definition c_div :: "int \<Rightarrow> int \<Rightarrow> int" where
  "c_div a b = (if (0 \<le> a) = (0 < b) then \<bar>a\<bar> div \<bar>b\<bar> else - (\<bar>a\<bar> div \<bar>b\<bar>))"

definition c_rem :: "int \<Rightarrow> int \<Rightarrow> int" where
  "c_rem a b = a - b * c_div a b"

text \<open>
  \<^verbatim>\<open>#define CBRT2 1.2599210498948731648\<close>, \<^verbatim>\<open>#define SQR_CBRT2 1.5874010519681994748\<close>
  and the table \<^verbatim>\<open>factor\<close>.
\<close>

definition CBRT2 :: fval where
  "CBRT2 = fp_lit 53 (12599210498948731648 / 10 ^ 19)"

definition SQR_CBRT2 :: fval where
  "SQR_CBRT2 = fp_lit 53 (15874010519681994748 / 10 ^ 19)"

definition factor :: "fval list" where
  "factor = [fp_div 53 (fp_lit 53 1) SQR_CBRT2, fp_div 53 (fp_lit 53 1) CBRT2, fp_lit 53 1,
             CBRT2, SQR_CBRT2]"

text \<open>
  \<^verbatim>\<open>xm = frexp(fabs(x), &xe)\<close>: the exponent \<open>xe\<close> with \<open>2 ^ (xe - 1) \<le> \<bar>x\<bar> < 2 ^ xe\<close>
  (0 for \<open>x = 0\<close>) and the fraction \<open>xm = \<bar>x\<bar> / 2 ^ xe\<close>; \<^verbatim>\<open>ldexp(y, e)\<close> is
  \<open>y \<cdot> 2 ^ e\<close>.
\<close>

definition frexp_exp :: "rat \<Rightarrow> int" where
  "frexp_exp x = (if x = 0 then 0 else ilog2 x + 1)"

definition frexp :: "rat \<Rightarrow> rat" where
  "frexp x = x / 2 powi frexp_exp x"

definition ldexp :: "fval \<Rightarrow> int \<Rightarrow> fval" where
  "ldexp v e = (case v of Fin x \<Rightarrow> Fin (x * 2 powi e) | _ \<Rightarrow> v)"

text \<open>The polynomial \<^verbatim>\<open>u\<close>, then \<^verbatim>\<open>t2 = u * u * u\<close>, then \<^verbatim>\<open>ym\<close>.\<close>

definition cbrt_u :: "fval \<Rightarrow> fval" where
  "cbrt_u xm =
     fp_add 53 (fp_lit 53 (354895765043919860 / 10 ^ 18))
      (fp_mul 53 (fp_sub 53 (fp_lit 53 (150819193781584896 / 10 ^ 17))
        (fp_mul 53 (fp_sub 53 (fp_lit 53 (211499494167371287 / 10 ^ 17))
          (fp_mul 53 (fp_sub 53 (fp_lit 53 (244693122563534430 / 10 ^ 17))
            (fp_mul 53 (fp_sub 53 (fp_lit 53 (183469277483613086 / 10 ^ 17))
              (fp_mul 53 (fp_sub 53 (fp_lit 53 (784932344976639262 / 10 ^ 18))
                                    (fp_mul 53 (fp_lit 53 (145263899385486377 / 10 ^ 18)) xm)) xm))
              xm))
            xm))
          xm))
        xm)"

definition cbrt_t2 :: "fval \<Rightarrow> fval" where
  "cbrt_t2 u = fp_mul 53 (fp_mul 53 u u) u"

definition cbrt_ym :: "fval \<Rightarrow> fval \<Rightarrow> fval \<Rightarrow> int \<Rightarrow> fval" where
  "cbrt_ym u t2 xm xe =
     fp_mul 53 (fp_div 53 (fp_mul 53 u (fp_add 53 t2 (fp_mul 53 (fp_lit 53 2) xm)))
                          (fp_add 53 (fp_mul 53 (fp_lit 53 2) t2) xm))
               (factor ! nat (2 + c_rem xe 3))"

definition cbrt_reduced :: "fval \<Rightarrow> fval \<Rightarrow> int \<Rightarrow> fval" where
  "cbrt_reduced u xm xe = cbrt_ym u (cbrt_t2 u) xm xe"

text \<open>
  \<^verbatim>\<open>cbrt\<close> itself: a zero, an infinity and a NaN are returned as \<^verbatim>\<open>x + x\<close>, any other
  argument gives \<^verbatim>\<open>ldexp(x > 0.0 ? ym : -ym, xe / 3)\<close>.
\<close>

definition cbrt :: "fval \<Rightarrow> fval" where
  "cbrt x =
     (case x of
        Fin q \<Rightarrow>
          if q = 0 then fp_add 53 x x
          else if 0 < q
          then ldexp (cbrt_reduced (cbrt_u (Fin (frexp \<bar>q\<bar>))) (Fin (frexp \<bar>q\<bar>)) (frexp_exp \<bar>q\<bar>))
                     (c_div (frexp_exp \<bar>q\<bar>) 3)
          else ldexp (fp_neg (cbrt_reduced (cbrt_u (Fin (frexp \<bar>q\<bar>))) (Fin (frexp \<bar>q\<bar>))
                                           (frexp_exp \<bar>q\<bar>)))
                     (c_div (frexp_exp \<bar>q\<bar>) 3)
      | _ \<Rightarrow> fp_add 53 x x)"

text \<open>
  \<^verbatim>\<open>adm_sum_cube\<close> (lines 110-130). The band is given by its reader \<open>x\<close>, from a
  sample offset to the \<^verbatim>\<open>int16_t\<close> stored there; \<open>px_stride\<close> is
  \<^verbatim>\<open>stride / sizeof(int16_t)\<close>. The accumulator \<^verbatim>\<open>sum\<close> is an \<^verbatim>\<open>int\<close>.
\<close>

definition adm_sum_cube :: "(int \<Rightarrow> int) \<Rightarrow> int \<Rightarrow> int \<Rightarrow> int \<Rightarrow> int" where
  "adm_sum_cube x w h px_stride =
     (let left = border w; top = border h; right = w - left; bottom = h - top;
          sum = fold (\<lambda>i. fold (\<lambda>j s. s32 (s + get_cube (FFABS (x (i * px_stride + j)))))
                              [left..right - 1])
                     [top..bottom - 1] 0
      in fp_to_int16
           (fp_add 53 (fp_ceil (cbrt (fp_of_int 53 sum)))
                      (fp_ceil (cbrt (fp_div 53 (fp_of_int 53 (s32 ((bottom - top) * (right - left))))
                                                (fp_lit 53 32))))))"

text \<open>
  The pooling as the specification words it: the sum of \<open>\<bar>x\<bar>\<^sup>3\<close> over rows
  \<open>[\<lceil>h \<cdot> 0.1\<rceil>, h - \<lceil>h \<cdot> 0.1\<rceil>)\<close> and columns \<open>[\<lceil>w \<cdot> 0.1\<rceil>, w - \<lceil>w \<cdot> 0.1\<rceil>)\<close>,
  then \<open>ceil (cbrt sum) + ceil (cbrt (area / 32))\<close>, with the same \<^verbatim>\<open>cbrt\<close> and
  \<^verbatim>\<open>ceil\<close> as the code.
\<close>

definition spec_range :: "int \<Rightarrow> int list" where
  "spec_range h = [\<lceil>of_int h * (1 / 10 :: rat)\<rceil>..h - \<lceil>of_int h * (1 / 10 :: rat)\<rceil> - 1]"

definition spec_area :: "int \<Rightarrow> int \<Rightarrow> int" where
  "spec_area w h = (h - 2 * \<lceil>of_int h * (1 / 10 :: rat)\<rceil>) * (w - 2 * \<lceil>of_int w * (1 / 10 :: rat)\<rceil>)"

definition spec_sum :: "(int \<Rightarrow> int) \<Rightarrow> int \<Rightarrow> int \<Rightarrow> int \<Rightarrow> int" where
  "spec_sum x w h px_stride =
     sum_list (map (\<lambda>i. sum_list (map (\<lambda>j. \<bar>x (i * px_stride + j)\<bar> ^ 3) (spec_range w)))
                   (spec_range h))"

definition sum_cube_spec :: "(int \<Rightarrow> int) \<Rightarrow> int \<Rightarrow> int \<Rightarrow> int \<Rightarrow> int" where
  "sum_cube_spec x w h px_stride =
     fp_to_int (fp_add 53 (fp_ceil (cbrt (Fin (of_int (spec_sum x w h px_stride)))))
                          (fp_ceil (cbrt (Fin (of_int (spec_area w h) / 32)))))"

text \<open>
  The region the code pools over: rows \<open>[top, h - top)\<close> and columns
  \<open>[left, w - left)\<close> with \<open>top = border h\<close> and \<open>left = border w\<close>; its area; and the
  exact sum of the cubed magnitudes over it.
\<close>

definition crop_rows :: "int \<Rightarrow> int list" where
  "crop_rows h = [border h..h - border h - 1]"

definition crop_cols :: "int \<Rightarrow> int list" where
  "crop_cols w = [border w..w - border w - 1]"

definition crop_area :: "int \<Rightarrow> int \<Rightarrow> int" where
  "crop_area w h = (h - border h - border h) * (w - border w - border w)"

definition cube_sum :: "(int \<Rightarrow> int) \<Rightarrow> int \<Rightarrow> int \<Rightarrow> int \<Rightarrow> int" where
  "cube_sum x w h px_stride =
     sum_list (map (\<lambda>i. sum_list (map (\<lambda>j. \<bar>x (i * px_stride + j)\<bar> ^ 3) (crop_cols w)))
                   (crop_rows h))"

subsection \<open>The work buffer\<close>

text \<open>
  \<^verbatim>\<open>s->data_buf\<close> is one allocation that \<^verbatim>\<open>ff_adm_process\<close> cuts into 35 planes of
  \<^verbatim>\<open>buf_sz\<close> bytes. All of them hold \<^verbatim>\<open>int16_t\<close> samples, so the buffer is modelled as
  a function from the index of an \<^verbatim>\<open>int16_t\<close> cell, counted from \<^verbatim>\<open>s->data_buf\<close>, to
  the value stored there, and a plane is given by the index of its first cell.
  \<^verbatim>\<open>ff_adm_init\<close> obtains the buffer from \<^verbatim>\<open>av_malloc\<close> and does not initialise it: its
  content at the first call is arbitrary.
\<close>

type_synonym mem = "int \<Rightarrow> int"

text \<open>Reading a plane of the work buffer, and reading the plane of a frame.\<close>

definition plane_rd :: "int \<Rightarrow> mem \<Rightarrow> int \<Rightarrow> int" where
  "plane_rd base m off = m (base + off)"

text \<open>
  \<^verbatim>\<open>adm_dwt_band_t\<close>: the four planes of a decomposition, and \<^verbatim>\<open>init_dwt_band\<close>, which
  places them one after the other in the order A, H, V, D.
\<close>

record adm_dwt_band_t =
  band_a :: int
  band_v :: int
  band_h :: int
  band_d :: int

definition init_dwt_band :: "int \<Rightarrow> int \<Rightarrow> adm_dwt_band_t \<times> int" where
  "init_dwt_band data_top buf_sz =
     (\<lparr>band_a = data_top, band_v = data_top + 2 * buf_sz, band_h = data_top + buf_sz,
       band_d = data_top + 3 * buf_sz\<rparr>, data_top + 4 * buf_sz)"

text \<open>The three detail planes in the order H, V, D, read and written at one offset.\<close>

definition angles :: "adm_dwt_band_t \<Rightarrow> int list" where
  "angles b = [band_h b, band_v b, band_d b]"

definition rd3 :: "mem \<Rightarrow> adm_dwt_band_t \<Rightarrow> int \<Rightarrow> int \<times> int \<times> int" where
  "rd3 m b off = (m (band_h b + off), m (band_v b + off), m (band_d b + off))"

definition wr3 :: "adm_dwt_band_t \<Rightarrow> int \<Rightarrow> int \<times> int \<times> int \<Rightarrow> mem \<Rightarrow> mem" where
  "wr3 b off x m =
     m(band_h b + off := fst x, band_v b + off := fst (snd x), band_d b + off := snd (snd x))"

subsection \<open>The wavelet transform\<close>

text \<open>
  The filter taps, \<^verbatim>\<open>float\<close> constants, are quantised by \<^verbatim>\<open>ff_adm_init\<close>:
  \<^verbatim>\<open>dwt2_db2_coeffs_lo_int[i] = lrint(dwt2_db2_coeffs_lo[i] * (1 << BIT_SHIFT))\<close>.
\<close>

definition dwt2_db2_coeffs_lo :: "fval list" where
  "dwt2_db2_coeffs_lo =
     [fp_lit 24 (482962913144690 / 10 ^ 15), fp_lit 24 (836516303737469 / 10 ^ 15),
      fp_lit 24 (224143868041857 / 10 ^ 15), fp_lit 24 (- 129409522550921 / 10 ^ 15)]"

definition dwt2_db2_coeffs_hi :: "fval list" where
  "dwt2_db2_coeffs_hi =
     [fp_lit 24 (- 129409522550921 / 10 ^ 15), fp_lit 24 (- 224143868041857 / 10 ^ 15),
      fp_lit 24 (836516303737469 / 10 ^ 15), fp_lit 24 (- 482962913144690 / 10 ^ 15)]"

definition dwt_quantize :: "fval \<Rightarrow> int" where
  "dwt_quantize c = s32 (lrint (fp_mul 24 c (fp_of_int 24 (2 ^ BIT_SHIFT))))"

definition dwt2_db2_coeffs_lo_int :: "int list" where
  "dwt2_db2_coeffs_lo_int = map dwt_quantize dwt2_db2_coeffs_lo"

definition dwt2_db2_coeffs_hi_int :: "int list" where
  "dwt2_db2_coeffs_hi_int = map dwt_quantize dwt2_db2_coeffs_hi"

text \<open>
  The inner loop over the four taps: \<^verbatim>\<open>sum += filt_coeff * img_coeff\<close> in \<^verbatim>\<open>int\<close>,
  where \<open>img k\<close> is the sample that tap \<open>k\<close> reads.
\<close>

definition dwt_sum :: "int list \<Rightarrow> (int \<Rightarrow> int) \<Rightarrow> int" where
  "dwt_sum filt img = fold (\<lambda>k s. s32 (s + s32 (filt ! nat k * img k))) [0..3] 0"

text \<open>
  The vertical pass of row \<open>i\<close> fills \<^verbatim>\<open>s->temp_lo\<close> and \<^verbatim>\<open>s->temp_hi\<close> for the columns
  \<open>0 \<le> j < w\<close>; the source sample is \<^verbatim>\<open>src[src_i * src_px_stride + j]\<close>.
\<close>

definition dwt_vert_img :: "(int \<Rightarrow> int) \<Rightarrow> int \<Rightarrow> int \<Rightarrow> int \<Rightarrow> int \<Rightarrow> int \<Rightarrow> int" where
  "dwt_vert_img src px h i j filt_i = src (dwt_src_index h i filt_i * px + j)"

definition dwt_vert :: "int list \<Rightarrow> (int \<Rightarrow> int) \<Rightarrow> int \<Rightarrow> int \<Rightarrow> int \<Rightarrow> int \<Rightarrow> int" where
  "dwt_vert filt src px h i j = s16 (shr (dwt_sum filt (dwt_vert_img src px h i j)) BIT_SHIFT)"

definition dwt_temp :: "int list \<Rightarrow> (int \<Rightarrow> int) \<Rightarrow> int \<Rightarrow> int \<Rightarrow> int \<Rightarrow> int \<Rightarrow> int list" where
  "dwt_temp filt src px w h i = map (dwt_vert filt src px h i) [0..w - 1]"

text \<open>
  The horizontal passes read the temporary row at the mirrored column. For \<open>w = 1\<close> the
  mirrored index of the last tap is \<open>-1\<close>, before the start of the array; the model
  reads 0 there.
\<close>

definition temp_rd :: "int list \<Rightarrow> int \<Rightarrow> int" where
  "temp_rd t k = (if 0 \<le> k \<and> k < int (length t) then t ! nat k else 0)"

definition dwt_horiz_img :: "int list \<Rightarrow> int \<Rightarrow> int \<Rightarrow> int \<Rightarrow> int" where
  "dwt_horiz_img tmp w j filt_j = temp_rd tmp (dwt_src_index w j filt_j)"

definition dwt_horiz :: "int list \<Rightarrow> int list \<Rightarrow> int \<Rightarrow> int \<Rightarrow> int" where
  "dwt_horiz filt tmp w j = s16 (shr (dwt_sum filt (dwt_horiz_img tmp w j)) BIT_SHIFT)"

text \<open>
  One horizontal pass stores the low-pass output and the high-pass output of column
  \<open>j\<close> into two planes, whose row starts are \<open>lo_row\<close> and \<open>hi_row\<close>.
\<close>

definition dwt_store :: "int \<Rightarrow> int \<Rightarrow> int list \<Rightarrow> int \<Rightarrow> int \<Rightarrow> mem \<Rightarrow> mem" where
  "dwt_store lo_row hi_row tmp w j m =
     m(lo_row + j := dwt_horiz dwt2_db2_coeffs_lo_int tmp w j,
       hi_row + j := dwt_horiz dwt2_db2_coeffs_hi_int tmp w j)"

definition dwt_horiz_pass :: "int \<Rightarrow> int \<Rightarrow> int list \<Rightarrow> int \<Rightarrow> mem \<Rightarrow> mem" where
  "dwt_horiz_pass lo_row hi_row tmp w m =
     fold (dwt_store lo_row hi_row tmp w) [0..c_div (w + 1) 2 - 1] m"

definition dwt_row_out ::
  "adm_dwt_band_t \<Rightarrow> int \<Rightarrow> int \<Rightarrow> int \<Rightarrow> int list \<Rightarrow> int list \<Rightarrow> mem \<Rightarrow> mem" where
  "dwt_row_out dst dpx w i temp_lo temp_hi m =
     dwt_horiz_pass (band_h dst + i * dpx) (band_d dst + i * dpx) temp_hi w
       (dwt_horiz_pass (band_a dst + i * dpx) (band_v dst + i * dpx) temp_lo w m)"

text \<open>
  \<^verbatim>\<open>adm_dwt2_fn\<close>, lines 315-412. \<open>src\<close> reads the source plane; at the scales 1 to 3
  that plane lies in the work buffer, so the reader is given the buffer as it is when the
  row starts. \<open>w\<close> and \<open>h\<close> are \<^verbatim>\<open>s->width\<close> and \<^verbatim>\<open>s->height\<close>.
\<close>

definition adm_dwt2_row ::
  "(mem \<Rightarrow> int \<Rightarrow> int) \<Rightarrow> int \<Rightarrow> adm_dwt_band_t \<Rightarrow> int \<Rightarrow> int \<Rightarrow> int \<Rightarrow> int \<Rightarrow> mem \<Rightarrow> mem" where
  "adm_dwt2_row src px dst dpx w h i m =
     dwt_row_out dst dpx w i (dwt_temp dwt2_db2_coeffs_lo_int (src m) px w h i)
                             (dwt_temp dwt2_db2_coeffs_hi_int (src m) px w h i) m"

definition adm_dwt2 ::
  "(mem \<Rightarrow> int \<Rightarrow> int) \<Rightarrow> int \<Rightarrow> adm_dwt_band_t \<Rightarrow> int \<Rightarrow> int \<Rightarrow> int \<Rightarrow> mem \<Rightarrow> mem" where
  "adm_dwt2 src px dst dpx w h m =
     fold (adm_dwt2_row src px dst dpx w h) [0..c_div (h + 1) 2 - 1] m"

subsection \<open>Decoupling, weighting, masking\<close>

text \<open>\<^verbatim>\<open>adm_decouple\<close>, lines 132-194: the loops around the pixel body.\<close>

definition decouple_store ::
  "adm_dwt_band_t \<Rightarrow> adm_dwt_band_t \<Rightarrow> int \<Rightarrow> (int \<times> int \<times> int) \<times> (int \<times> int \<times> int) \<Rightarrow> mem \<Rightarrow> mem" where
  "decouple_store r a off ra m = wr3 a off (snd ra) (wr3 r off (fst ra) m)"

definition decouple_px ::
  "adm_dwt_band_t \<Rightarrow> adm_dwt_band_t \<Rightarrow> adm_dwt_band_t \<Rightarrow> adm_dwt_band_t \<Rightarrow> int \<Rightarrow> int \<Rightarrow> int
   \<Rightarrow> mem \<Rightarrow> mem" where
  "decouple_px ref main r a px i j m =
     decouple_store r a (i * px + j)
       (adm_decouple_pixel (rd3 m ref (i * px + j)) (rd3 m main (i * px + j))) m"

definition decouple_row ::
  "adm_dwt_band_t \<Rightarrow> adm_dwt_band_t \<Rightarrow> adm_dwt_band_t \<Rightarrow> adm_dwt_band_t \<Rightarrow> int \<Rightarrow> int \<Rightarrow> int
   \<Rightarrow> mem \<Rightarrow> mem" where
  "decouple_row ref main r a w px i m = fold (decouple_px ref main r a px i) [0..w - 1] m"

definition adm_decouple ::
  "adm_dwt_band_t \<Rightarrow> adm_dwt_band_t \<Rightarrow> adm_dwt_band_t \<Rightarrow> adm_dwt_band_t \<Rightarrow> int \<Rightarrow> int \<Rightarrow> int
   \<Rightarrow> mem \<Rightarrow> mem" where
  "adm_decouple ref main r a w h px m = fold (decouple_row ref main r a w px) [0..h - 1] m"

text \<open>
  \<^verbatim>\<open>adm_csf\<close>, lines 196-226. \<^verbatim>\<open>Q\<close> is a table of \<^verbatim>\<open>float\<close> constants; \<^verbatim>\<open>rfactor\<close>
  holds \<^verbatim>\<open>lrint((1.0 / Q[scale][k]) * (1 << BIT_SHIFT))\<close> as \<^verbatim>\<open>uint16_t\<close>. The product
  of a \<^verbatim>\<open>uint16_t\<close> and an \<^verbatim>\<open>int16_t\<close> fits an \<^verbatim>\<open>int\<close>.
\<close>

definition Q :: "fval list list" where
  "Q = [[fp_lit 24 (57534645 / 10 ^ 6), fp_lit 24 (169767410 / 10 ^ 6)],
        [fp_lit 24 (31265896 / 10 ^ 6), fp_lit 24 (69937431 / 10 ^ 6)],
        [fp_lit 24 (23056629 / 10 ^ 6), fp_lit 24 (40990150 / 10 ^ 6)],
        [fp_lit 24 (21895033 / 10 ^ 6), fp_lit 24 (31936741 / 10 ^ 6)]]"

definition u16 :: "int \<Rightarrow> int" where
  "u16 x = x mod 2 ^ 16"

definition rfactor_of :: "fval \<Rightarrow> int" where
  "rfactor_of q = u16 (quantize_q15 (fp_div 53 (fp_lit 53 1) q))"

definition rfactor :: "int \<Rightarrow> int list" where
  "rfactor scale = [rfactor_of (Q ! nat scale ! 0), rfactor_of (Q ! nat scale ! 0),
                    rfactor_of (Q ! nat scale ! 1)]"

definition csf_px :: "int \<Rightarrow> int \<Rightarrow> int \<Rightarrow> int \<Rightarrow> int \<Rightarrow> int \<Rightarrow> mem \<Rightarrow> mem" where
  "csf_px rf src_ptr dst_ptr px i j m =
     m(dst_ptr + (i * px + j) := s16 (shr (rf * m (src_ptr + (i * px + j))) BIT_SHIFT))"

definition csf_row :: "int \<Rightarrow> int \<Rightarrow> int \<Rightarrow> int \<Rightarrow> int \<Rightarrow> int \<Rightarrow> mem \<Rightarrow> mem" where
  "csf_row rf src_ptr dst_ptr w px i m = fold (csf_px rf src_ptr dst_ptr px i) [0..w - 1] m"

definition csf_angle ::
  "adm_dwt_band_t \<Rightarrow> adm_dwt_band_t \<Rightarrow> int \<Rightarrow> int \<Rightarrow> int \<Rightarrow> int \<Rightarrow> int \<Rightarrow> mem \<Rightarrow> mem" where
  "csf_angle src dst scale w h px theta m =
     fold (csf_row (rfactor scale ! nat theta) (angles src ! nat theta) (angles dst ! nat theta) w px)
          [0..h - 1] m"

definition adm_csf ::
  "adm_dwt_band_t \<Rightarrow> adm_dwt_band_t \<Rightarrow> int \<Rightarrow> int \<Rightarrow> int \<Rightarrow> int \<Rightarrow> mem \<Rightarrow> mem" where
  "adm_csf src dst scale w h px m = fold (csf_angle src dst scale w h px) [0..2] m"

text \<open>
  \<^verbatim>\<open>adm_cm_thresh\<close>, lines 228-279: each row of the threshold plane is cleared, then the
  three orientations add their filtered magnitudes to it.
\<close>

definition cm_img :: "mem \<Rightarrow> int \<Rightarrow> int \<Rightarrow> int \<Rightarrow> int \<Rightarrow> int \<Rightarrow> int \<Rightarrow> int \<Rightarrow> int \<Rightarrow> int" where
  "cm_img m src_ptr w h px i j filt_i filt_j =
     FFABS (m (src_ptr + (cm_src_index h i filt_i * px + cm_src_index w j filt_j)))"

definition cm_tap :: "mem \<Rightarrow> int \<Rightarrow> int \<Rightarrow> int \<Rightarrow> int \<Rightarrow> int \<Rightarrow> int \<Rightarrow> int \<Rightarrow> int \<Rightarrow> int \<Rightarrow> int" where
  "cm_tap m src_ptr w h px i j filt_i filt_j s =
     s32 (s + s32 (cm_filt_coeff filt_i filt_j * cm_img m src_ptr w h px i j filt_i filt_j))"

definition cm_tap_row :: "mem \<Rightarrow> int \<Rightarrow> int \<Rightarrow> int \<Rightarrow> int \<Rightarrow> int \<Rightarrow> int \<Rightarrow> int \<Rightarrow> int \<Rightarrow> int" where
  "cm_tap_row m src_ptr w h px i j filt_i s = fold (cm_tap m src_ptr w h px i j filt_i) [0..2] s"

definition cm_sum :: "mem \<Rightarrow> int \<Rightarrow> int \<Rightarrow> int \<Rightarrow> int \<Rightarrow> int \<Rightarrow> int \<Rightarrow> int" where
  "cm_sum m src_ptr w h px i j = fold (cm_tap_row m src_ptr w h px i j) [0..2] 0"

definition thresh_clear :: "int \<Rightarrow> int \<Rightarrow> int \<Rightarrow> int \<Rightarrow> mem \<Rightarrow> mem" where
  "thresh_clear dst px i j m = m(dst + (i * px + j) := 0)"

definition thresh_px :: "int \<Rightarrow> int \<Rightarrow> int \<Rightarrow> int \<Rightarrow> int \<Rightarrow> int \<Rightarrow> int \<Rightarrow> mem \<Rightarrow> mem" where
  "thresh_px src_ptr dst w h px i j m =
     m(dst + (i * px + j) :=
         s16 (m (dst + (i * px + j)) + shr (cm_sum m src_ptr w h px i j) BIT_SHIFT))"

definition thresh_angle ::
  "adm_dwt_band_t \<Rightarrow> int \<Rightarrow> int \<Rightarrow> int \<Rightarrow> int \<Rightarrow> int \<Rightarrow> int \<Rightarrow> mem \<Rightarrow> mem" where
  "thresh_angle src dst w h px i theta m =
     fold (thresh_px (angles src ! nat theta) dst w h px i) [0..w - 1] m"

definition thresh_row :: "adm_dwt_band_t \<Rightarrow> int \<Rightarrow> int \<Rightarrow> int \<Rightarrow> int \<Rightarrow> int \<Rightarrow> mem \<Rightarrow> mem" where
  "thresh_row src dst w h px i m =
     fold (thresh_angle src dst w h px i) [0..2] (fold (thresh_clear dst px i) [0..w - 1] m)"

definition adm_cm_thresh :: "adm_dwt_band_t \<Rightarrow> int \<Rightarrow> int \<Rightarrow> int \<Rightarrow> int \<Rightarrow> mem \<Rightarrow> mem" where
  "adm_cm_thresh src dst w h px m = fold (thresh_row src dst w h px) [0..h - 1] m"

text \<open>\<^verbatim>\<open>adm_cm\<close>, lines 281-313.\<close>

definition cm_clip :: "int \<Rightarrow> int \<Rightarrow> int" where
  "cm_clip x thr = s16 (if FFABS x - thr < 0 then 0 else FFABS x - thr)"

definition cm_clip3 :: "int \<times> int \<times> int \<Rightarrow> int \<Rightarrow> int \<times> int \<times> int" where
  "cm_clip3 x thr = (cm_clip (fst x) thr, cm_clip (fst (snd x)) thr, cm_clip (snd (snd x)) thr)"

definition cm_px :: "adm_dwt_band_t \<Rightarrow> adm_dwt_band_t \<Rightarrow> int \<Rightarrow> int \<Rightarrow> int \<Rightarrow> int \<Rightarrow> mem \<Rightarrow> mem" where
  "cm_px src dst thresh px i j m =
     wr3 dst (i * px + j) (cm_clip3 (rd3 m src (i * px + j)) (m (thresh + (i * px + j)))) m"

definition cm_row :: "adm_dwt_band_t \<Rightarrow> adm_dwt_band_t \<Rightarrow> int \<Rightarrow> int \<Rightarrow> int \<Rightarrow> int \<Rightarrow> mem \<Rightarrow> mem" where
  "cm_row src dst thresh w px i m = fold (cm_px src dst thresh px i) [0..w - 1] m"

definition adm_cm ::
  "adm_dwt_band_t \<Rightarrow> adm_dwt_band_t \<Rightarrow> int \<Rightarrow> int \<Rightarrow> int \<Rightarrow> int \<Rightarrow> mem \<Rightarrow> mem" where
  "adm_cm src dst thresh w h px m = fold (cm_row src dst thresh w px) [0..h - 1] m"

text \<open>
  \<^verbatim>\<open>adm_buffer_copy\<close>, lines 418-430, with \<^verbatim>\<open>linewidth = w * sizeof(int16_t)\<close>: every
  row copies \<open>w\<close> cells.
\<close>

definition copy_cell :: "int \<Rightarrow> int \<Rightarrow> int \<Rightarrow> int \<Rightarrow> int \<Rightarrow> mem \<Rightarrow> mem" where
  "copy_cell src dst px i k m = m(dst + (i * px + k) := m (src + (i * px + k)))"

definition copy_row :: "int \<Rightarrow> int \<Rightarrow> int \<Rightarrow> int \<Rightarrow> int \<Rightarrow> mem \<Rightarrow> mem" where
  "copy_row src dst w px i m = fold (copy_cell src dst px i) [0..w - 1] m"

definition adm_buffer_copy :: "int \<Rightarrow> int \<Rightarrow> int \<Rightarrow> int \<Rightarrow> int \<Rightarrow> mem \<Rightarrow> mem" where
  "adm_buffer_copy src dst w h px m = fold (copy_row src dst w px) [0..h - 1] m"

subsection \<open>The frame-pair evaluation\<close>

text \<open>
  The declarations of \<^verbatim>\<open>ADMData\<close> (\<^verbatim>\<open>adm.h\<close>) and of \<^verbatim>\<open>AVFrame\<close> are not part of
  \<^verbatim>\<open>vf_adm.c\<close>; the records have the fields that the code reads. \<open>depth\<close> stands for
  \<^verbatim>\<open>s->desc->comp[0].depth\<close>. \<open>data\<close> is the luma plane \<^verbatim>\<open>data[0]\<close> of a frame as a
  function from the index of a sample to its value, \<open>linesize\<close> is \<^verbatim>\<open>linesize[0]\<close> in
  bytes, \<open>frame_width\<close> and \<open>frame_height\<close> are the dimensions the frame carries.
\<close>

record ADMData =
  width :: int
  height :: int
  depth :: int
  data_buf :: mem

record AVFrame =
  data :: "int \<Rightarrow> int"
  linesize :: int
  frame_width :: int
  frame_height :: int

definition frame_rd :: "AVFrame \<Rightarrow> mem \<Rightarrow> int \<Rightarrow> int" where
  "frame_rd f m off = data f off"

text \<open>\<^verbatim>\<open>MAX_ALIGN\<close>, \<^verbatim>\<open>ALIGN_CEIL\<close>, and the stride and the size of a plane in bytes.\<close>

definition MAX_ALIGN :: int where
  "MAX_ALIGN = 32"

definition ALIGN_CEIL :: "int \<Rightarrow> int" where
  "ALIGN_CEIL x = x + (if c_rem x MAX_ALIGN \<noteq> 0 then MAX_ALIGN - c_rem x MAX_ALIGN else 0)"

definition buf_stride :: "ADMData \<Rightarrow> int" where
  "buf_stride s = ALIGN_CEIL (c_div (width s + 1) 2 * 2)"

definition buf_sz :: "ADMData \<Rightarrow> int" where
  "buf_sz s = buf_stride s * c_div (height s + 1) 2"

text \<open>
  The planes of the work buffer in the order in which \<^verbatim>\<open>ff_adm_process\<close> cuts them,
  lines 475-498; \<open>n\<close> is the number of cells of one plane.
\<close>

record adm_layout =
  ref_scale :: int
  main_scale :: int
  ref_dwt2 :: adm_dwt_band_t
  main_dwt2 :: adm_dwt_band_t
  decouple_r :: adm_dwt_band_t
  decouple_a :: adm_dwt_band_t
  csf_o :: adm_dwt_band_t
  csf_r :: adm_dwt_band_t
  csf_a :: adm_dwt_band_t
  mta :: int
  cm_r :: adm_dwt_band_t

definition adm_layout_of :: "int \<Rightarrow> adm_layout" where
  "adm_layout_of n =
     \<lparr>ref_scale = 0, main_scale = n,
      ref_dwt2 = fst (init_dwt_band (2 * n) n),
      main_dwt2 = fst (init_dwt_band (6 * n) n),
      decouple_r = fst (init_dwt_band (10 * n) n),
      decouple_a = fst (init_dwt_band (14 * n) n),
      csf_o = fst (init_dwt_band (18 * n) n),
      csf_r = fst (init_dwt_band (22 * n) n),
      csf_a = fst (init_dwt_band (26 * n) n),
      mta = 30 * n,
      cm_r = fst (init_dwt_band (31 * n) n)\<rparr>"

text \<open>
  The two transforms of one scale, lines 514-531. At scale 0 the sources are the frames,
  with 8-bit samples if the depth is at most 8 and 16-bit samples otherwise; at the scales
  1 to 3 they are the planes \<^verbatim>\<open>ref_scale\<close> and \<^verbatim>\<open>main_scale\<close> of the work buffer.
\<close>

definition sample_size :: "ADMData \<Rightarrow> int" where
  "sample_size s = (if depth s \<le> 8 then 1 else 2)"

definition adm_scale_dwt ::
  "ADMData \<Rightarrow> AVFrame \<Rightarrow> AVFrame \<Rightarrow> adm_layout \<Rightarrow> int \<Rightarrow> int \<Rightarrow> mem \<Rightarrow> mem" where
  "adm_scale_dwt s ref main L px scale m =
     (if scale = 0
      then adm_dwt2 (frame_rd main) (c_div (linesize main) (sample_size s)) (main_dwt2 L) px
             (width s) (height s)
             (adm_dwt2 (frame_rd ref) (c_div (linesize ref) (sample_size s)) (ref_dwt2 L) px
                (width s) (height s) m)
      else adm_dwt2 (plane_rd (main_scale L)) px (main_dwt2 L) px (width s) (height s)
             (adm_dwt2 (plane_rd (ref_scale L)) px (ref_dwt2 L) px (width s) (height s) m))"

text \<open>The stages between the transforms and the pooling, lines 536-544.\<close>

definition adm_scale_stages :: "adm_layout \<Rightarrow> int \<Rightarrow> int \<Rightarrow> int \<Rightarrow> int \<Rightarrow> mem \<Rightarrow> mem" where
  "adm_scale_stages L px scale w h m =
     adm_cm (csf_r L) (cm_r L) (mta L) w h px
       (adm_cm_thresh (csf_a L) (mta L) w h px
          (adm_csf (decouple_a L) (csf_a L) scale w h px
             (adm_csf (decouple_r L) (csf_r L) scale w h px
                (adm_csf (ref_dwt2 L) (csf_o L) scale w h px
                   (adm_decouple (ref_dwt2 L) (main_dwt2 L) (decouple_r L) (decouple_a L)
                      w h px m)))))"

text \<open>
  The pooled value of one scale, lines 546-552: a \<^verbatim>\<open>float\<close> that starts at 0 and to which
  the results of \<^verbatim>\<open>adm_sum_cube\<close> for the planes H, V and D are added.
\<close>

definition pool_add :: "mem \<Rightarrow> int \<Rightarrow> int \<Rightarrow> int \<Rightarrow> int \<Rightarrow> fval \<Rightarrow> fval" where
  "pool_add m w h px plane acc = fp_add 24 acc (fp_of_int 24 (adm_sum_cube (plane_rd plane m) w h px))"

definition pool3 :: "mem \<Rightarrow> adm_dwt_band_t \<Rightarrow> int \<Rightarrow> int \<Rightarrow> int \<Rightarrow> fval" where
  "pool3 m b w h px = fold (pool_add m w h px) (angles b) (fp_lit 24 0)"

text \<open>
  The state of the loop over the scales: the work buffer, the current \<open>w\<close> and \<open>h\<close>, the
  sums \<^verbatim>\<open>num\<close> and \<^verbatim>\<open>den\<close> (\<^verbatim>\<open>double\<close>) and the array \<^verbatim>\<open>scores\<close> as far as it is
  written.
\<close>

record adm_loop =
  lmem :: mem
  lw :: int
  lh :: int
  lnum :: fval
  lden :: fval
  lscores :: "fval list"

definition adm_scale_copy :: "adm_layout \<Rightarrow> int \<Rightarrow> int \<Rightarrow> int \<Rightarrow> mem \<Rightarrow> mem" where
  "adm_scale_copy L px w h m =
     adm_buffer_copy (band_a (main_dwt2 L)) (main_scale L) w h px
       (adm_buffer_copy (band_a (ref_dwt2 L)) (ref_scale L) w h px m)"

definition adm_scale_pool :: "adm_layout \<Rightarrow> int \<Rightarrow> int \<Rightarrow> int \<Rightarrow> adm_loop \<Rightarrow> mem \<Rightarrow> adm_loop" where
  "adm_scale_pool L px w h st m =
     \<lparr>lmem = adm_scale_copy L px w h m, lw = w, lh = h,
      lnum = fp_add 53 (lnum st) (pool3 m (cm_r L) w h px),
      lden = fp_add 53 (lden st) (pool3 m (csf_o L) w h px),
      lscores = lscores st @ [pool3 m (cm_r L) w h px, pool3 m (csf_o L) w h px]\<rparr>"

text \<open>The body of the loop over the scales, lines 510-569.\<close>

definition adm_scale ::
  "ADMData \<Rightarrow> AVFrame \<Rightarrow> AVFrame \<Rightarrow> adm_layout \<Rightarrow> int \<Rightarrow> int \<Rightarrow> adm_loop \<Rightarrow> adm_loop" where
  "adm_scale s ref main L px scale st =
     adm_scale_pool L px (c_div (lw st + 1) 2) (c_div (lh st + 1) 2) st
       (adm_scale_stages L px scale (c_div (lw st + 1) 2) (c_div (lh st + 1) 2)
          (adm_scale_dwt s ref main L px scale (lmem st)))"

text \<open>
  \<^verbatim>\<open>double numden_limit = 1e-2 * (s->width * s->height) / (1920.0 * 1080.0);\<close> and the
  last lines of \<^verbatim>\<open>ff_adm_process\<close>, 571-582.
\<close>

definition numden_limit :: "ADMData \<Rightarrow> fval" where
  "numden_limit s =
     fp_div 53 (fp_mul 53 (fp_lit 53 (1 / 100)) (fp_of_int 53 (s32 (width s * height s))))
               (fp_mul 53 (fp_lit 53 1920) (fp_lit 53 1080))"

definition adm_clamp :: "fval \<Rightarrow> fval \<Rightarrow> fval" where
  "adm_clamp limit x = (if fp_less x limit then Fin 0 else x)"

definition adm_ratio :: "fval \<Rightarrow> fval \<Rightarrow> fval" where
  "adm_ratio num den = (if den = Fin 0 then Fin 1 else fp_div 53 num den)"

text \<open>What \<^verbatim>\<open>ff_adm_process\<close> hands back: \<^verbatim>\<open>*score\<close> (also the return value),
  \<^verbatim>\<open>*score_num\<close>, \<^verbatim>\<open>*score_den\<close> and the array \<^verbatim>\<open>scores\<close>.\<close>

record adm_stats =
  score :: fval
  score_num :: fval
  score_den :: fval
  scores :: "fval list"

definition adm_final :: "ADMData \<Rightarrow> adm_loop \<Rightarrow> adm_stats" where
  "adm_final s st =
     \<lparr>score = adm_ratio (adm_clamp (numden_limit s) (lnum st)) (adm_clamp (numden_limit s) (lden st)),
      score_num = adm_clamp (numden_limit s) (lnum st),
      score_den = adm_clamp (numden_limit s) (lden st),
      scores = lscores st\<rparr>"

text \<open>
  The loop over the four scales; the work buffer that the call leaves behind is the
  \<open>lmem\<close> of the final state.
\<close>

definition adm_run :: "ADMData \<Rightarrow> AVFrame \<Rightarrow> AVFrame \<Rightarrow> adm_loop" where
  "adm_run s ref main =
     fold (adm_scale s ref main (adm_layout_of (c_div (buf_sz s) 2)) (c_div (buf_stride s) 2)) [0..3]
          \<lparr>lmem = data_buf s, lw = width s, lh = height s, lnum = Fin 0, lden = Fin 0,
           lscores = []\<rparr>"

definition ff_adm_process :: "ADMData \<Rightarrow> AVFrame \<Rightarrow> AVFrame \<Rightarrow> adm_stats" where
  "ff_adm_process s ref main = adm_final s (adm_run s ref main)"

section \<open>Properties\<close>

subsection \<open>Rounding\<close>

lemma pow2_step: "(2::rat) powi (e + 1) = 2 * 2 powi e"
  by (simp add: power_int_add)

lemma ilog2_up_bounds:
  "1 \<le> x \<Longrightarrow> 0 \<le> ilog2_up x \<and> 2 powi (ilog2_up x) \<le> x \<and> x < 2 powi (ilog2_up x + 1)"
proof (induction x rule: ilog2_up.induct)
  case (1 x)
  show ?case
  proof (cases "x < 2")
    case True
    have eq: "ilog2_up x = 0" using True by (subst ilog2_up.simps) simp
    show ?thesis unfolding eq using True "1.prems" by simp
  next
    case False
    then have "1 \<le> x / 2" by simp
    from "1.IH" [OF False this]
    have ih: "0 \<le> ilog2_up (x / 2)" "2 powi (ilog2_up (x / 2)) \<le> x / 2"
      "x / 2 < 2 powi (ilog2_up (x / 2) + 1)" by simp_all
    have eq: "ilog2_up x = ilog2_up (x / 2) + 1" using False by (subst ilog2_up.simps) simp
    show ?thesis
      unfolding eq pow2_step using ih(1) ih(2) ih(3) [unfolded pow2_step] by linarith
  qed
qed


lemma ilog2_dn_bounds:
  "0 < x \<Longrightarrow> x < 1 \<Longrightarrow> 2 powi (ilog2_dn x) \<le> x \<and> x < 2 powi (ilog2_dn x + 1)"
proof (induction x rule: ilog2_dn.induct)
  case (1 x)
  have c: "\<not> (x \<le> 0 \<or> 1 \<le> x)" using "1.prems" by simp
  have eq: "ilog2_dn x = ilog2_dn (2 * x) - 1" using c by (subst ilog2_dn.simps) simp
  show ?case
  proof (cases "2 * x < 1")
    case True
    have p: "0 < 2 * x" using "1.prems" by simp
    from "1.IH" [OF c p True]
    have ih: "2 powi (ilog2_dn (2 * x)) \<le> 2 * x" "2 * x < 2 powi (ilog2_dn (2 * x) + 1)"
      by simp_all
    have s1: "(2::rat) powi (ilog2_dn (2 * x)) = 2 * 2 powi (ilog2_dn (2 * x) - 1)"
      using pow2_step [of "ilog2_dn (2 * x) - 1"] by simp
    have s2: "(2::rat) powi (ilog2_dn (2 * x) + 1) = 2 * 2 powi (ilog2_dn (2 * x) - 1 + 1)"
      by (simp add: pow2_step)
    show ?thesis unfolding eq using ih(1) [unfolded s1] ih(2) [unfolded s2] by linarith
  next
    case False
    have z: "ilog2_dn (2 * x) = 0" using False by (subst ilog2_dn.simps) simp
    have h: "(2::rat) powi (- 1) = 1 / 2" by (simp add: power_int_minus)
    show ?thesis unfolding eq z using False "1.prems" by (simp add: h)
  qed
qed

lemma ilog2_bounds:
  assumes "x \<noteq> 0"
  shows "2 powi (ilog2 x) \<le> \<bar>x\<bar> \<and> \<bar>x\<bar> < 2 powi (ilog2 x + 1)"
proof (cases "1 \<le> \<bar>x\<bar>")
  case True
  have "ilog2 x = ilog2_up \<bar>x\<bar>" using True by (simp add: ilog2_def)
  then show ?thesis using ilog2_up_bounds [OF True] by simp
next
  case False
  have e: "ilog2 x = ilog2_dn \<bar>x\<bar>" using False by (simp add: ilog2_def)
  have "0 < \<bar>x\<bar>" "\<bar>x\<bar> < 1" using assms False by simp_all
  from ilog2_dn_bounds [OF this] show ?thesis unfolding e .
qed


lemma rne_of_int: "rne (of_int n) = n"
  by (simp add: rne_def)

lemma rne_cases: "rne x = \<lfloor>x\<rfloor> \<or> rne x = \<lfloor>x\<rfloor> + 1"
  by (simp add: rne_def Let_def)

lemma rne_mono:
  assumes "x \<le> y"
  shows "rne x \<le> rne y"
proof -
  have fg: "\<lfloor>x\<rfloor> \<le> \<lfloor>y\<rfloor>" using assms by (rule floor_mono)
  show ?thesis
  proof (cases "\<lfloor>x\<rfloor> < \<lfloor>y\<rfloor>")
    case True
    then show ?thesis using rne_cases [of x] rne_cases [of y] by linarith
  next
    case False
    then have eq: "\<lfloor>y\<rfloor> = \<lfloor>x\<rfloor>" using fg by simp
    have r: "x - of_int \<lfloor>x\<rfloor> \<le> y - of_int \<lfloor>x\<rfloor>" using assms by simp
    show ?thesis
      using r unfolding rne_def Let_def eq
      by (simp split: if_splits) (linarith+)?
  qed
qed

lemma rne_uminus: "rne (- x) = - rne x"
proof (cases "x = of_int \<lfloor>x\<rfloor>")
  case True
  have "rne (- of_int \<lfloor>x\<rfloor>) = - rne (of_int \<lfloor>x\<rfloor> :: rat)"
    using rne_of_int [of "- \<lfloor>x\<rfloor>"] rne_of_int [of "\<lfloor>x\<rfloor>"] by simp
  then show ?thesis using True by simp
next
  case False
  have le: "of_int \<lfloor>x\<rfloor> \<le> x" by (rule of_int_floor_le)
  have lt: "of_int \<lfloor>x\<rfloor> < x" using le False by (metis less_le)
  have ub: "x < of_int \<lfloor>x\<rfloor> + 1" by linarith
  have fl: "\<lfloor>- x\<rfloor> = - \<lfloor>x\<rfloor> - 1"
  proof (rule floor_unique)
    show "of_int (- \<lfloor>x\<rfloor> - 1) \<le> - x" using ub by simp
    show "- x < of_int (- \<lfloor>x\<rfloor> - 1) + 1" using lt by simp
  qed
  show ?thesis
    unfolding rne_def Let_def fl using lt ub
    by (simp split: if_splits) (linarith+)?
qed


lemma ilog2_uminus: "ilog2 (- x) = ilog2 x"
  by (simp add: ilog2_def)

lemma fl_uminus: "fl p (- x) = - fl p x"
  by (simp add: fl_def ilog2_uminus rne_uminus Let_def)

lemma fl_zero: "fl p 0 = 0"
  by (simp add: fl_def)

lemma fl_unit:
  assumes "0 < p"
  shows "(2::rat) powi (ilog2 x - int p + 1) = 2 powi (ilog2 x) / 2 ^ (p - 1)"
proof -
  have e: "ilog2 x - int p + 1 = ilog2 x - int (p - 1)" using assms by simp
  have "(2::rat) powi (ilog2 x - int (p - 1)) = 2 powi (ilog2 x) / 2 powi (int (p - 1))"
    by (rule power_int_diff) simp
  then show ?thesis unfolding e by (simp only: power_int_of_nat)
qed

lemma fl_pos_bounds:
  assumes "0 < x" and "0 < p"
  shows "2 powi (ilog2 x) \<le> fl p x \<and> fl p x \<le> 2 powi (ilog2 x + 1)"
proof -
  define a :: rat where "a = 2 powi (ilog2 x)"
  define k where "k = p - 1"
  have apos: "0 < a" by (simp add: a_def)
  have b: "a \<le> x" "x < 2 * a"
    using ilog2_bounds [of x] assms(1) by (simp_all add: a_def power_int_add)
  have u: "(2::rat) powi (ilog2 x - int p + 1) = a / 2 ^ k"
    unfolding a_def k_def by (rule fl_unit [OF assms(2)])
  have fl: "fl p x = of_int (rne (x * 2 ^ k / a)) * (a / 2 ^ k)"
    using assms(1) by (simp add: fl_def u Let_def)
  have lo: "of_int (2 ^ k) \<le> x * 2 ^ k / a"
    using b(1) apos by (simp add: pos_le_divide_eq mult.commute)
  have hi: "x * 2 ^ k / a \<le> of_int (2 ^ (k + 1))"
    using b(2) apos by (simp add: pos_divide_le_eq mult.commute)
  have rlo: "2 ^ k \<le> rne (x * 2 ^ k / a)"
    using rne_mono [OF lo] by (simp only: rne_of_int)
  have rhi: "rne (x * 2 ^ k / a) \<le> 2 ^ (k + 1)"
    using rne_mono [OF hi] by (simp only: rne_of_int)
  have c: "0 < a / 2 ^ k" using apos by simp
  have "of_int (2 ^ k) * (a / 2 ^ k) \<le> fl p x"
    unfolding fl using rlo c by (simp only: mult_le_cancel_right_pos of_int_le_iff)
  moreover have "fl p x \<le> of_int (2 ^ (k + 1)) * (a / 2 ^ k)"
    unfolding fl using rhi c by (simp only: mult_le_cancel_right_pos of_int_le_iff)
  ultimately show ?thesis
    by (simp add: a_def [symmetric] power_int_add)
qed


lemma ilog2_mono_pos:
  assumes "0 < x" and "x \<le> y"
  shows "ilog2 x \<le> ilog2 y"
proof (rule ccontr)
  assume "\<not> ilog2 x \<le> ilog2 y"
  then have "ilog2 y + 1 \<le> ilog2 x" by simp
  then have "(2::rat) powi (ilog2 y + 1) \<le> 2 powi (ilog2 x)"
    by (rule power_int_increasing) simp
  moreover have "2 powi (ilog2 x) \<le> x" using ilog2_bounds [of x] assms(1) by simp
  moreover have "y < 2 powi (ilog2 y + 1)" using ilog2_bounds [of y] assms by simp
  ultimately show False using assms(2) by linarith
qed

lemma fl_mono_pos:
  assumes "0 < x" and "x \<le> y" and "0 < p"
  shows "fl p x \<le> fl p y"
proof (cases "ilog2 x = ilog2 y")
  case True
  define u :: rat where "u = 2 powi (ilog2 y - int p + 1)"
  have upos: "0 < u" by (simp add: u_def)
  have "x / u \<le> y / u" using assms(2) upos by (simp add: divide_right_mono)
  then have "rne (x / u) \<le> rne (y / u)" by (rule rne_mono)
  then have "of_int (rne (x / u)) * u \<le> of_int (rne (y / u)) * u"
    using upos by (simp only: mult_le_cancel_right_pos of_int_le_iff)
  then show ?thesis using assms(1,2) True by (simp add: fl_def Let_def u_def)
next
  case False
  have ypos: "0 < y" using assms by linarith
  have "ilog2 x \<le> ilog2 y" by (rule ilog2_mono_pos [OF assms(1,2)])
  with False have "ilog2 x + 1 \<le> ilog2 y" by simp
  then have "(2::rat) powi (ilog2 x + 1) \<le> 2 powi (ilog2 y)"
    by (rule power_int_increasing) simp
  moreover have "fl p x \<le> 2 powi (ilog2 x + 1)"
    using fl_pos_bounds [OF assms(1,3)] by simp
  moreover have "2 powi (ilog2 y) \<le> fl p y"
    using fl_pos_bounds [OF ypos assms(3)] by simp
  ultimately show ?thesis by linarith
qed

lemma fl_pos:
  assumes "0 < x" and "0 < p"
  shows "0 < fl p x"
proof -
  have "(0::rat) < 2 powi (ilog2 x)" by simp
  then show ?thesis using fl_pos_bounds [OF assms] by linarith
qed

lemma fl_neg:
  assumes "x < 0" and "0 < p"
  shows "fl p x < 0"
  using fl_pos [of "- x" p] assms by (simp add: fl_uminus)

lemma fl_mono:
  assumes "x \<le> y" and "0 < p"
  shows "fl p x \<le> fl p y"
proof -
  consider "0 < x" | "x = 0" "y = 0" | "x = 0" "0 < y" | "x < 0" "0 \<le> y" | "x < 0" "y < 0"
    using assms(1) by linarith
  then show ?thesis
  proof cases
    case 1
    then show ?thesis by (rule fl_mono_pos [OF _ assms])
  next
    case 2
    then show ?thesis by simp
  next
    case 3
    then show ?thesis using fl_pos [OF 3(2) assms(2)] by (simp add: fl_zero)
  next
    case 4
    have "fl p x < 0" by (rule fl_neg [OF 4(1) assms(2)])
    moreover have "0 \<le> fl p y"
    proof (cases "y = 0")
      case True
      then show ?thesis by (simp add: fl_zero)
    next
      case False
      with 4(2) have "0 < y" by simp
      from fl_pos [OF this assms(2)] show ?thesis by simp
    qed
    ultimately show ?thesis by linarith
  next
    case 5
    have "fl p (- y) \<le> fl p (- x)"
      by (rule fl_mono_pos) (use 5 assms in simp_all)
    then show ?thesis by (simp add: fl_uminus)
  qed
qed


lemma fl_of_int:
  assumes "\<bar>n\<bar> < 2 ^ p"
  shows "fl p (of_int n) = of_int n"
proof (cases "n = 0")
  case True
  then show ?thesis by (simp add: fl_zero)
next
  case False
  define x :: rat where "x = of_int n"
  have x0: "x \<noteq> 0" using False by (simp add: x_def)
  have "\<bar>x\<bar> < 2 ^ p"
  proof -
    have "(of_int \<bar>n\<bar> :: rat) < of_int (2 ^ p)" using assms by (simp only: of_int_less_iff)
    then show ?thesis by (simp add: x_def)
  qed
  then have lt: "2 powi (ilog2 x) < (2::rat) powi (int p)"
    using ilog2_bounds [OF x0] by simp
  have e: "ilog2 x < int p"
  proof (rule ccontr)
    assume "\<not> ilog2 x < int p"
    then have "int p \<le> ilog2 x" by simp
    then have "(2::rat) powi (int p) \<le> 2 powi (ilog2 x)"
      by (rule power_int_increasing) simp
    with lt show False by simp
  qed
  define k where "k = nat (int p - 1 - ilog2 x)"
  have kk: "ilog2 x - int p + 1 = - int k" using e by (simp add: k_def)
  have u: "(2::rat) powi (ilog2 x - int p + 1) = 1 / 2 ^ k"
    unfolding kk by (simp add: power_int_minus_divide)
  have "x / (1 / 2 ^ k) = of_int (n * 2 ^ k)" by (simp add: x_def)
  then have "rne (x / (1 / 2 ^ k)) = n * 2 ^ k" by (simp only: rne_of_int)
  then have "fl p x = of_int (n * 2 ^ k) * (1 / 2 ^ k)"
    using x0 by (simp add: fl_def Let_def u)
  then show ?thesis by (simp add: x_def)
qed

subsection \<open>Evaluation of the floating-point operations on numerals\<close>

lemma ilog2_up_base: "x < 2 \<Longrightarrow> ilog2_up x = 0"
  by (subst ilog2_up.simps) simp
lemma ilog2_up_step: "\<not> x < 2 \<Longrightarrow> ilog2_up x = ilog2_up (x / 2) + 1"
  by (subst ilog2_up.simps) simp
lemma ilog2_dn_base: "x \<le> 0 \<or> 1 \<le> x \<Longrightarrow> ilog2_dn x = 0"
  by (subst ilog2_dn.simps) simp
lemma ilog2_dn_step: "\<not> (x \<le> 0 \<or> 1 \<le> x) \<Longrightarrow> ilog2_dn x = ilog2_dn (2 * x) - 1"
  by (subst ilog2_dn.simps) simp

lemma floor_num: "\<lfloor>(numeral a :: rat) / numeral b\<rfloor> = numeral a div numeral b"
  using floor_divide_of_int_eq [of "numeral a" "numeral b", where ?'a = rat] by simp
lemma floor_neg_num: "\<lfloor>- ((numeral a :: rat) / numeral b)\<rfloor> = - numeral a div numeral b"
  using floor_divide_of_int_eq [of "- numeral a" "numeral b", where ?'a = rat] by simp
lemma ceil_num: "\<lceil>(numeral a :: rat) / numeral b\<rceil> = - (- numeral a div numeral b)"
  using floor_neg_num [of a b] by (simp add: ceiling_def)
lemma ceil_neg_num: "\<lceil>- ((numeral a :: rat) / numeral b)\<rceil> = - (numeral a div numeral b)"
  using floor_num [of a b] by (simp add: ceiling_def)

lemma floor_neg_one: "\<lfloor>- 1 :: rat\<rfloor> = - 1"
  using floor_of_int [of "- 1", where ?'a = rat] by simp
lemma ceil_neg_one: "\<lceil>- 1 :: rat\<rceil> = - 1"
  using ceiling_of_int [of "- 1", where ?'a = rat] by simp

lemma floor_one_num: "\<lfloor>1 / (numeral b :: rat)\<rfloor> = 1 div numeral b"
  using floor_divide_of_int_eq [of 1 "numeral b", where ?'a = rat] by simp
lemma floor_neg_one_num: "\<lfloor>- (1 / (numeral b :: rat))\<rfloor> = - 1 div numeral b"
  using floor_divide_of_int_eq [of "- 1" "numeral b", where ?'a = rat] by simp
lemma ceil_one_num: "\<lceil>1 / (numeral b :: rat)\<rceil> = - (- 1 div numeral b)"
  using floor_neg_one_num [of b] by (simp add: ceiling_def)
lemma ceil_neg_one_num: "\<lceil>- (1 / (numeral b :: rat))\<rceil> = - (1 div numeral b)"
  using floor_one_num [of b] by (simp add: ceiling_def)

lemmas fl_eval = floor_num floor_neg_num ceil_num ceil_neg_num floor_neg_one ceil_neg_one
  floor_one_num floor_neg_one_num ceil_one_num ceil_neg_one_num fl_def ilog2_def rne_def Let_def ilog2_up_base ilog2_up_step ilog2_dn_base ilog2_dn_step
  power_int_minus


lemmas fp_eval = fl_eval fp_add_def fp_sub_def fp_mul_def fp_div_def fp_neg_def fp_less_def
  fp_le_def fp_ceil_def fp_round_def fp_sgn_def fp_of_sgn_def fp_of_int_def fp_lit_def
  fp_to_int_def fp_to_int16_def trunc0_def lrint_def s16_def s32_def

lemma eps_val: "eps = Fin (332307 / 332306998946228968225951765070086144)"
  by (simp add: eps_def fp_eval)

lemmas dec_eval = decouple_out_def DIVS_plus_eps_def decouple_gain_def decouple_tmp_def
  clamp01_def eps_val fp_eval

subsection \<open>Mirror indices stay inside the plane\<close>

lemma mirror_fold_range:
  assumes "0 \<le> k" and "k \<le> n + 1" and "2 \<le> n"
  shows "0 \<le> mirror n k \<and> mirror n k < n"
  using assms by (simp add: mirror_def FFABS_def Let_def)

lemma mirror_neg_one_range:
  assumes "2 \<le> n"
  shows "0 \<le> mirror n (- 1) \<and> mirror n (- 1) < n"
  using assms by (simp add: mirror_def FFABS_def Let_def)

lemma dwt_src_index_range:
  assumes "2 \<le> n" and "0 \<le> i" and "i < (n + 1) div 2" and "0 \<le> f" and "f < 4"
  shows "0 \<le> dwt_src_index n i f \<and> dwt_src_index n i f < n"
proof (cases "2 * i - 1 + f = - 1")
  case True
  have "dwt_src_index n i f = mirror n (- 1)"
    unfolding dwt_src_index_def by (subst True) (rule refl)
  then show ?thesis
    using mirror_neg_one_range [OF assms(1)] by simp
next
  case False
  with assms have lo: "0 \<le> 2 * i - 1 + f" by linarith
  from assms have hi: "2 * i - 1 + f \<le> n + 1" by linarith
  show ?thesis
    unfolding dwt_src_index_def by (rule mirror_fold_range [OF lo hi assms(1)])
qed

lemma cm_src_index_range:
  assumes "2 \<le> n" and "0 \<le> i" and "i < n" and "0 \<le> f" and "f < 3"
  shows "0 \<le> cm_src_index n i f \<and> cm_src_index n i f < n"
proof (cases "i - 1 + f = - 1")
  case True
  have "cm_src_index n i f = mirror n (- 1)"
    unfolding cm_src_index_def by (subst True) (rule refl)
  then show ?thesis
    using mirror_neg_one_range [OF assms(1)] by simp
next
  case False
  with assms have lo: "0 \<le> i - 1 + f" by linarith
  from assms have hi: "i - 1 + f \<le> n + 1" by linarith
  show ?thesis
    unfolding cm_src_index_def by (rule mirror_fold_range [OF lo hi assms(1)])
qed

text \<open>
  Claim C10. For a dimension \<open>n \<ge> 2\<close> (a height or a width), every source index of the
  DWT passes, \<open>mirror n (2 * i - 1 + f)\<close> with \<open>0 \<le> i < (n + 1) div 2\<close> and
  \<open>0 \<le> f < 4\<close>, and every source index of the 3x3 masking filter,
  \<open>mirror n (i - 1 + f)\<close> with \<open>0 \<le> i < n\<close> and \<open>0 \<le> f < 3\<close>, lies in \<open>[0, n)\<close>.
  For dimension 1 the DWT rule leaves the range: tap 3 of output 0 reads index \<open>-1\<close>.
\<close>

theorem mirror_indices_in_range:
  "(\<forall>n i f. 2 \<le> n \<and> 0 \<le> i \<and> i < (n + 1) div 2 \<and> 0 \<le> f \<and> f < 4
       \<longrightarrow> 0 \<le> dwt_src_index n i f \<and> dwt_src_index n i f < n)
   \<and> (\<forall>n i f. 2 \<le> n \<and> 0 \<le> i \<and> i < n \<and> 0 \<le> f \<and> f < 3
       \<longrightarrow> 0 \<le> cm_src_index n i f \<and> cm_src_index n i f < n)
   \<and> (0 < (1 + 1) div (2::int) \<and> dwt_src_index 1 0 3 = - 1)"
proof (intro conjI allI impI)
  fix n i f :: int
  assume "2 \<le> n \<and> 0 \<le> i \<and> i < (n + 1) div 2 \<and> 0 \<le> f \<and> f < 4"
  then show "0 \<le> dwt_src_index n i f" and "dwt_src_index n i f < n"
    using dwt_src_index_range [of n i f] by simp_all
next
  fix n i f :: int
  assume "2 \<le> n \<and> 0 \<le> i \<and> i < n \<and> 0 \<le> f \<and> f < 3"
  then show "0 \<le> cm_src_index n i f" and "cm_src_index n i f < n"
    using cm_src_index_range [of n i f] by simp_all
next
  show "0 < (1 + 1) div (2::int)" by simp
next
  show "dwt_src_index 1 0 3 = - 1"
    by (simp add: dwt_src_index_def mirror_def FFABS_def Let_def)
qed

theorem mirror_indices_in_range_witness:
  "(2::int) \<le> 5 \<and> (0::int) \<le> 2 \<and> (2::int) < (5 + 1) div 2 \<and> (0::int) \<le> 3 \<and> (3::int) < 4
   \<and> dwt_src_index 5 2 3 = 3 \<and> 0 \<le> dwt_src_index 5 2 3 \<and> dwt_src_index 5 2 3 < 5
   \<and> (2::int) \<le> 5 \<and> (0::int) \<le> 4 \<and> (4::int) < 5 \<and> (0::int) \<le> 2 \<and> (2::int) < 3
   \<and> cm_src_index 5 4 2 = 4 \<and> 0 \<le> cm_src_index 5 4 2 \<and> cm_src_index 5 4 2 < 5"
  using mirror_indices_in_range
  by (simp add: dwt_src_index_def cm_src_index_def mirror_def FFABS_def Let_def)

subsection \<open>The masking filter coefficient\<close>

lemma one_fifteenth_double:
  "fp_div 53 (fp_lit 53 1) (fp_lit 53 15) = Fin (4803839602528529 / 72057594037927936)"
  by (simp add: fp_eval)

lemma one_thirtieth_double:
  "fp_div 53 (fp_lit 53 1) (fp_lit 53 30) = Fin (4803839602528529 / 144115188075855872)"
  by (simp add: fp_eval)

text \<open>
  Claim C2 says that the centre tap of the masking kernel is \<open>round (2 ^ 15 / 15) = 2185\<close>
  and every other tap \<open>round (2 ^ 15 / 30) = 1092\<close>. The coefficient the code computes
  is 0 for every tap, since \<^verbatim>\<open>lrint\<close> is applied before the scaling; quantising the
  two tap values the way \<^verbatim>\<open>adm_csf\<close> and \<^verbatim>\<open>ff_adm_init\<close> do gives 2185 and 1092.
\<close>

theorem cm_filt_coeff_is_zero:
  "cm_filt_coeff filt_i filt_j = 0
   \<and> quantize_q15 (fp_div 53 (fp_lit 53 1) (fp_lit 53 15)) = 2185
   \<and> quantize_q15 (fp_div 53 (fp_lit 53 1) (fp_lit 53 30)) = 1092"
  unfolding cm_filt_coeff_def quantize_q15_def one_fifteenth_double one_thirtieth_double
  by (simp add: fp_eval BIT_SHIFT_def)

subsection \<open>Decoupling: the gain\<close>

text \<open>
  Claim C6 says that the gain is \<open>k = distorted / (reference + 1e-30)\<close>, clamped to
  \<open>[0, 1]\<close>, and that the provisional restored value is \<open>k \<cdot> reference\<close>. At a pixel
  whose reference and distorted H samples are both 0 the expansion of \<^verbatim>\<open>DIVS\<close>
  computes \<open>0 \<cdot> (1 / 0 + eps)\<close>, a NaN, which the clamp keeps and the product keeps,
  where the specified gain and provisional value are 0. With V samples \<open>1\<close> and \<open>-1\<close>
  the angle test fails there, so the NaN is what \<^verbatim>\<open>ceil\<close> receives and what is
  converted to \<^verbatim>\<open>int16_t\<close>.
\<close>

theorem decouple_gain_nan:
  "DIVS_plus_eps 0 0 = NaN \<and> decouple_gain 0 0 = NaN \<and> decouple_tmp 0 0 = NaN
   \<and> gain_spec 0 0 = Fin 0 \<and> tmp_spec 0 0 = Fin 0
   \<and> \<not> angle_flag 0 1 0 (- 1)
   \<and> fp_ceil (if angle_flag 0 1 0 (- 1) then fp_of_int 24 0 else decouple_tmp 0 0) = NaN
   \<and> adm_decouple_pixel (0, 1, 0) (0, - 1, 0) = ((0, 0, 0), (0, - 1, 0))"
proof -
  have d: "DIVS_plus_eps 0 0 = NaN" by (simp add: dec_eval)
  have g: "decouple_gain 0 0 = NaN" by (simp add: dec_eval)
  have t: "decouple_tmp 0 0 = NaN" by (simp add: dec_eval)
  have gs: "gain_spec 0 0 = Fin 0" by (simp add: gain_spec_def dec_eval)
  have ts: "tmp_spec 0 0 = Fin 0" by (simp add: tmp_spec_def gs fp_eval)
  have a: "\<not> angle_flag 0 1 0 (- 1)"
    by (simp add: angle_flag_def cos_1deg_sq_def fp_eval)
  have c: "fp_ceil NaN = NaN" by (simp add: fp_ceil_def)
  have p: "adm_decouple_pixel (0, 1, 0) (0, - 1, 0) = ((0, 0, 0), (0, - 1, 0))"
    unfolding adm_decouple_pixel_def
    by (simp only: prod.case Let_def a) (simp add: dec_eval)
  show ?thesis using d g t gs ts a c p by simp
qed

subsection \<open>Decoupling: restored plus additive\<close>

lemma s16_id: "- 32768 \<le> c \<Longrightarrow> c \<le> 32767 \<Longrightarrow> s16 c = c"
  by (simp add: s16_def)

lemma trunc0_of_int: "trunc0 (of_int c) = c"
  by (simp add: trunc0_def)

lemma to_int16_ceil:
  assumes "- 32768 \<le> \<lceil>x\<rceil>" and "\<lceil>x\<rceil> \<le> 32767"
  shows "fp_to_int16 (fp_ceil (Fin x)) = \<lceil>x\<rceil>"
  using assms by (simp add: fp_to_int16_def fp_ceil_def fp_to_int_def trunc0_of_int s16_id Let_def)

lemma fl24_int16:
  assumes "- 32768 \<le> n" and "n \<le> 32768"
  shows "fl 24 (of_int n) = of_int n"
proof (rule fl_of_int)
  show "\<bar>n\<bar> < 2 ^ 24" using assms by simp
qed

lemma ceil_fl_between:
  fixes y :: rat
  assumes "- 32768 \<le> \<lfloor>y\<rfloor>" and "\<lfloor>y\<rfloor> < 32768"
  shows "\<lfloor>y\<rfloor> \<le> \<lceil>fl 24 y\<rceil> \<and> \<lceil>fl 24 y\<rceil> \<le> \<lfloor>y\<rfloor> + 1"
proof -
  have lo: "of_int \<lfloor>y\<rfloor> \<le> y" by simp
  have hi: "y \<le> of_int (\<lfloor>y\<rfloor> + 1)" by linarith
  have a: "fl 24 (of_int \<lfloor>y\<rfloor>) = of_int \<lfloor>y\<rfloor>"
    by (rule fl24_int16) (use assms in linarith)+
  have b: "fl 24 (of_int (\<lfloor>y\<rfloor> + 1)) = of_int (\<lfloor>y\<rfloor> + 1)"
    by (rule fl24_int16) (use assms in linarith)+
  have "of_int \<lfloor>y\<rfloor> \<le> fl 24 y" using fl_mono [OF lo, of 24] a by simp
  then have 1: "\<lfloor>y\<rfloor> \<le> \<lceil>fl 24 y\<rceil>" by (simp add: le_ceiling_iff)
  have "fl 24 y \<le> of_int (\<lfloor>y\<rfloor> + 1)" using fl_mono [OF hi, of 24] b by simp
  then have 2: "\<lceil>fl 24 y\<rceil> \<le> \<lfloor>y\<rfloor> + 1" by (simp only: ceiling_le_iff)
  from 1 2 show ?thesis ..
qed

lemma ceil_sum:
  fixes m :: rat
  assumes "- 32768 \<le> \<lfloor>of_int tx - m\<rfloor>" and "\<lfloor>of_int tx - m\<rfloor> < 32768"
  shows "0 \<le> \<lceil>m\<rceil> + \<lceil>fl 24 (of_int tx - m)\<rceil> - tx
       \<and> \<lceil>m\<rceil> + \<lceil>fl 24 (of_int tx - m)\<rceil> - tx \<le> 1"
proof -
  define y where "y = of_int tx - m"
  have m: "m = of_int tx - y" by (simp add: y_def)
  have "\<lceil>m\<rceil> = tx - \<lfloor>y\<rfloor>" unfolding m by (simp add: ceiling_def)
  then show ?thesis using ceil_fl_between [of y] assms by (simp add: y_def [symmetric])
qed


lemma fl_nonpos:
  assumes "x \<le> 0" and "0 < p"
  shows "fl p x \<le> 0"
  using fl_mono [OF assms] by (simp add: fl_zero)

lemma fl_nonneg:
  assumes "0 \<le> x" and "0 < p"
  shows "0 \<le> fl p x"
  using fl_mono [OF assms] by (simp add: fl_zero)

lemma fl53_int16:
  assumes "- 32768 \<le> n" and "n \<le> 32768"
  shows "fl 53 (of_int n) = of_int n"
proof (rule fl_of_int)
  show "\<bar>n\<bar> < 2 ^ 53" using assms by simp
qed

lemma DIVS_finite:
  assumes "ox \<noteq> 0" and "- 32768 \<le> ox" and "ox \<le> 32767" and "- 32768 \<le> tx" and "tx \<le> 32767"
  shows "fp_round 24 (DIVS_plus_eps tx ox) = Fin (gain_q tx ox)"
proof -
  have t: "fl 53 (of_int tx) = of_int tx" by (rule fl53_int16) (use assms in linarith)+
  have o: "fl 53 (of_int ox) = of_int ox" by (rule fl53_int16) (use assms in linarith)+
  have one: "fl 53 1 = 1" using fl53_int16 [of 1] by simp
  have nz: "(of_int ox :: rat) \<noteq> 0" using assms(1) by simp
  show ?thesis
    unfolding DIVS_plus_eps_def eps_val gain_q_def
    using assms(1)
    by (simp add: fp_round_def fp_mul_def fp_add_def fp_div_def fp_of_int_def fp_lit_def t o one)
qed

lemma recip_sign:
  assumes "ox \<noteq> 0" and "- 32768 \<le> ox" and "ox \<le> 32767"
  defines "d2 \<equiv> fl 53 (fl 53 (1 / of_int ox) + 332307 / 332306998946228968225951765070086144)"
  shows "(0 < ox \<longrightarrow> 0 < d2) \<and> (ox < 0 \<longrightarrow> d2 < 0)"
proof (intro conjI impI)
  assume "0 < ox"
  then have "(0::rat) < 1 / of_int ox" by simp
  then have "0 < fl 53 (1 / of_int ox)" by (rule fl_pos) simp
  then have "0 < fl 53 (1 / of_int ox) + 332307 / 332306998946228968225951765070086144"
    by simp
  then show "0 < d2" unfolding d2_def by (rule fl_pos) simp
next
  assume neg: "ox < 0"
  have b: "(of_int ox :: rat) < 0" "- 32768 \<le> (of_int ox :: rat)"
    using neg assms(2) by simp_all
  have "1 / (of_int ox :: rat) \<le> - (1 / 32768)"
    using b by (simp add: field_simps)
  then have "fl 53 (1 / of_int ox) \<le> fl 53 (- (1 / 32768))" by (rule fl_mono) simp
  also have "fl 53 (- (1 / 32768)) = - (1 / 32768)" by (simp add: fl_eval)
  finally have "fl 53 (1 / of_int ox) + 332307 / 332306998946228968225951765070086144 < 0"
    by simp
  then show "d2 < 0" unfolding d2_def by (rule fl_neg) simp
qed

lemma gain_q_sign:
  assumes "ox \<noteq> 0" and "- 32768 \<le> ox" and "ox \<le> 32767" and "0 < gain_q tx ox"
  shows "(0 < tx \<and> 0 < ox) \<or> (tx < 0 \<and> ox < 0)"
proof -
  define d2 where "d2 = fl 53 (fl 53 (1 / of_int ox) + 332307 / 332306998946228968225951765070086144)"
  have s: "(0 < ox \<longrightarrow> 0 < d2) \<and> (ox < 0 \<longrightarrow> d2 < 0)"
    unfolding d2_def by (rule recip_sign [OF assms(1-3)])
  have g: "gain_q tx ox = fl 24 (fl 53 (of_int tx * d2))" by (simp add: gain_q_def d2_def)
  have pos: "0 < of_int tx * d2"
  proof (rule ccontr)
    assume "\<not> 0 < of_int tx * d2"
    then have "of_int tx * d2 \<le> 0" by simp
    then have "fl 53 (of_int tx * d2) \<le> 0" by (rule fl_nonpos) simp
    then have "fl 24 (fl 53 (of_int tx * d2)) \<le> 0" by (rule fl_nonpos) simp
    with assms(4) g show False by simp
  qed
  show ?thesis
  proof (cases "0 < ox")
    case True
    with s have "0 < d2" by simp
    with pos have "0 < (of_int tx :: rat)" by (simp add: zero_less_mult_iff)
    with True show ?thesis by simp
  next
    case False
    with assms(1) have n: "ox < 0" by simp
    with s have "d2 < 0" by simp
    with pos have "(of_int tx :: rat) < 0" by (simp add: zero_less_mult_iff)
    with n show ?thesis by simp
  qed
qed


lemma out_finite:
  fixes m :: rat
  assumes tx: "- 32768 \<le> tx" "tx \<le> 32767"
    and m: "- 32768 \<le> m" "m \<le> 32767"
    and y: "- 32768 \<le> of_int tx - m" "of_int tx - m \<le> 32767"
  shows "fp_to_int16 (fp_ceil (Fin m)) = \<lceil>m\<rceil>"
    and "fp_to_int16 (fp_ceil (fp_sub 24 (fp_of_int 24 tx) (Fin m))) = \<lceil>fl 24 (of_int tx - m)\<rceil>"
    and "0 \<le> \<lceil>m\<rceil> + \<lceil>fl 24 (of_int tx - m)\<rceil> - tx"
    and "\<lceil>m\<rceil> + \<lceil>fl 24 (of_int tx - m)\<rceil> - tx \<le> 1"
proof -
  have c1: "- 32768 \<le> \<lceil>m\<rceil>" using m(1) by (simp add: le_ceiling_iff)
  have c2: "\<lceil>m\<rceil> \<le> 32767" using m(2) by (simp add: ceiling_le_iff)
  show "fp_to_int16 (fp_ceil (Fin m)) = \<lceil>m\<rceil>" by (rule to_int16_ceil [OF c1 c2])
  have t: "fl 24 (of_int tx) = of_int tx" by (rule fl24_int16) (use tx in linarith)+
  have sub: "fp_sub 24 (fp_of_int 24 tx) (Fin m) = Fin (fl 24 (of_int tx - m))"
    by (simp add: fp_sub_def fp_add_def fp_neg_def fp_of_int_def t)
  have lo: "fl 24 (of_int (- 32768)) \<le> fl 24 (of_int tx - m)"
    by (rule fl_mono) (use y in simp_all)
  have hi: "fl 24 (of_int tx - m) \<le> fl 24 (of_int 32767)"
    by (rule fl_mono) (use y in simp_all)
  have e1: "fl 24 (of_int (- 32768)) = of_int (- 32768)" by (rule fl24_int16) simp_all
  have e2: "fl 24 (of_int 32767) = of_int 32767" by (rule fl24_int16) simp_all
  have d1: "- 32768 \<le> \<lceil>fl 24 (of_int tx - m)\<rceil>"
    using lo unfolding e1 by (simp add: le_ceiling_iff)
  have d2: "\<lceil>fl 24 (of_int tx - m)\<rceil> \<le> 32767"
    using hi unfolding e2 by (simp add: ceiling_le_iff)
  show "fp_to_int16 (fp_ceil (fp_sub 24 (fp_of_int 24 tx) (Fin m))) = \<lceil>fl 24 (of_int tx - m)\<rceil>"
    unfolding sub by (rule to_int16_ceil [OF d1 d2])
  have f1: "- 32768 \<le> \<lfloor>of_int tx - m\<rfloor>" using y(1) by (simp add: le_floor_iff)
  have f2: "\<lfloor>of_int tx - m\<rfloor> < 32768" using y(2) by (simp add: floor_less_iff)
  from ceil_sum [OF f1 f2]
  show "0 \<le> \<lceil>m\<rceil> + \<lceil>fl 24 (of_int tx - m)\<rceil> - tx"
    and "\<lceil>m\<rceil> + \<lceil>fl 24 (of_int tx - m)\<rceil> - tx \<le> 1" by simp_all
qed


lemma decouple_tmp_zero_ref:
  assumes "- 32768 \<le> tx" and "tx \<le> 32767"
  shows "decouple_tmp tx 0 = (if tx = 0 then NaN else Fin 0)"
proof -
  have t: "fl 53 (of_int tx) = of_int tx" by (rule fl53_int16) (use assms in linarith)+
  have one: "fl 53 1 = 1" using fl53_int16 [of 1] by simp
  have d: "DIVS_plus_eps tx 0 = fp_of_sgn (fp_sgn (Fin (of_int tx)))"
    unfolding DIVS_plus_eps_def eps_val
    by (simp add: fp_mul_def fp_add_def fp_div_def fp_of_int_def fp_lit_def t one fl_zero
        fp_sgn_def fp_of_sgn_def)
  show ?thesis
    unfolding decouple_tmp_def decouple_gain_def d
    by (simp add: fp_sgn_def fp_of_sgn_def fp_round_def clamp01_def fp_less_def fp_mul_def
        fp_of_int_def fl_zero)
qed

lemma decouple_tmp_finite:
  assumes "ox \<noteq> 0" and "- 32768 \<le> ox" and "ox \<le> 32767" and "- 32768 \<le> tx" and "tx \<le> 32767"
  shows "decouple_tmp tx ox = Fin (fl 24 (clamp_q (gain_q tx ox) * of_int ox))"
proof -
  have o: "fl 24 (of_int ox) = of_int ox" by (rule fl24_int16) (use assms in linarith)+
  show ?thesis
    unfolding decouple_tmp_def decouple_gain_def DIVS_finite [OF assms]
    by (simp add: clamp01_def clamp_q_def fp_less_def fp_mul_def fp_of_int_def o)
qed

lemma decouple_out_consistent:
  assumes tx: "- 32768 \<le> tx" "tx \<le> 32767" and ox: "- 32768 \<le> ox" "ox \<le> 32767"
  shows "\<bar>fst (decouple_out flag tx ox) + snd (decouple_out flag tx ox) - tx\<bar> \<le> 1"
proof -
  have t24: "fl 24 (of_int tx) = of_int tx" by (rule fl24_int16) (use tx in linarith)+
  have fin: "\<bar>fst (decouple_out flag tx ox) + snd (decouple_out flag tx ox) - tx\<bar> \<le> 1"
    if tmp: "(if flag then fp_of_int 24 tx else decouple_tmp tx ox) = Fin m"
      and m: "- 32768 \<le> m" "m \<le> 32767"
      and y: "- 32768 \<le> of_int tx - m" "of_int tx - m \<le> 32767" for m
  proof -
    note f = out_finite [OF tx m y]
    have "decouple_out flag tx ox = (\<lceil>m\<rceil>, \<lceil>fl 24 (of_int tx - m)\<rceil>)"
      unfolding decouple_out_def tmp Let_def f(1) f(2) ..
    then show ?thesis using f(3) f(4) by simp
  qed
  show ?thesis
  proof (cases flag)
    case True
    show ?thesis
    proof (rule fin [of "of_int tx"])
      show "(if flag then fp_of_int 24 tx else decouple_tmp tx ox) = Fin (of_int tx)"
        using True by (simp add: fp_of_int_def t24)
    qed (use tx in simp_all)
  next
    case False
    show ?thesis
    proof (cases "ox = 0")
      case z: True
      show ?thesis
      proof (cases "tx = 0")
        case True
        have "decouple_out flag tx ox = (0, 0)"
          using False z True
          by (simp add: decouple_out_def decouple_tmp_zero_ref fp_eval)
        then show ?thesis using True by simp
      next
        case nz: False
        show ?thesis
        proof (rule fin [of 0])
          show "(if flag then fp_of_int 24 tx else decouple_tmp tx ox) = Fin 0"
            using False z nz decouple_tmp_zero_ref [OF tx] by simp
        qed (use tx in simp_all)
      qed
    next
      case nz: False
      define q where "q = clamp_q (gain_q tx ox)"
      define m where "m = fl 24 (q * of_int ox)"
      have tmp: "(if flag then fp_of_int 24 tx else decouple_tmp tx ox) = Fin m"
        using False decouple_tmp_finite [OF nz ox tx] by (simp add: m_def q_def)
      have q01: "0 \<le> q" "q \<le> 1" by (simp_all add: q_def clamp_q_def)
      have o24: "fl 24 (of_int ox) = of_int ox" by (rule fl24_int16) (use ox in linarith)+
      show ?thesis
      proof (cases "q = 0")
        case True
        then have "m = 0" by (simp add: m_def fl_zero)
        with tmp have tmp0: "(if flag then fp_of_int 24 tx else decouple_tmp tx ox) = Fin 0"
          by simp
        show ?thesis by (rule fin [OF tmp0]) (use tx in simp_all)
      next
        case qnz: False
        with q01 have qpos: "0 < q" by simp
        then have "0 < gain_q tx ox" by (simp add: q_def clamp_q_def split: if_splits)
        from gain_q_sign [OF nz ox this]
        consider "0 < tx" "0 < ox" | "tx < 0" "ox < 0" by blast
        then show ?thesis
        proof cases
          case 1
          have oo: "(0::rat) < of_int ox" using 1(2) by simp
          have "0 \<le> q * of_int ox" using q01(1) oo by simp
          then have m0: "0 \<le> m" unfolding m_def by (rule fl_nonneg) simp
          have "q * of_int ox \<le> of_int ox" using q01(2) oo by simp
          then have "m \<le> fl 24 (of_int ox)" unfolding m_def by (rule fl_mono) simp
          then have m1: "m \<le> of_int ox" by (simp only: o24)
          have oxr: "(of_int ox :: rat) \<le> 32767" using ox(2) by simp
          have txr: "(0::rat) < of_int tx" "(of_int tx :: rat) \<le> 32767" using 1(1) tx(2) by simp_all
          show ?thesis
            by (rule fin [OF tmp]) (use m0 m1 oxr txr in linarith)+
        next
          case 2
          have oo: "(of_int ox :: rat) < 0" using 2(2) by simp
          have "q * of_int ox \<le> 0" using q01(1) oo by (simp add: mult_le_0_iff)
          then have m0: "m \<le> 0" unfolding m_def by (rule fl_nonpos) simp
          have "of_int ox \<le> q * of_int ox" using q01(2) oo by simp
          then have "fl 24 (of_int ox) \<le> m" unfolding m_def by (rule fl_mono) simp
          then have m1: "of_int ox \<le> m" by (simp only: o24)
          have oxr: "- 32768 \<le> (of_int ox :: rat)" using ox(1) by simp
          have txr: "(of_int tx :: rat) \<le> - 1" "- 32768 \<le> (of_int tx :: rat)"
            using 2(1) tx(1) by simp_all
          show ?thesis
            by (rule fin [OF tmp]) (use m0 m1 oxr txr in linarith)+
        qed
      qed
    qed
  qed
qed

text \<open>
  Claim C5. For every pixel and each of the orientations H, V and D, the restored and the
  additive sample that \<^verbatim>\<open>adm_decouple\<close> stores add up to the distorted sample up to a
  difference of at most 1. (Where the provisional value is a NaN, both stores receive the
  converted NaN, which is 0, and the distorted sample is 0 as well.)
\<close>

theorem adm_decouple_self_consistent:
  assumes "is_int16 oh" and "is_int16 ov" and "is_int16 od"
    and "is_int16 th" and "is_int16 tv" and "is_int16 td"
  shows "case adm_decouple_pixel (oh, ov, od) (th, tv, td) of
           ((rh, rv, rd), (ah, av, ad)) \<Rightarrow>
             \<bar>rh + ah - th\<bar> \<le> 1 \<and> \<bar>rv + av - tv\<bar> \<le> 1 \<and> \<bar>rd + ad - td\<bar> \<le> 1"
proof -
  define flag where "flag = angle_flag oh ov th tv"
  have h: "\<bar>fst (decouple_out flag th oh) + snd (decouple_out flag th oh) - th\<bar> \<le> 1"
    by (rule decouple_out_consistent) (use assms in \<open>simp_all add: is_int16_def\<close>)
  have v: "\<bar>fst (decouple_out flag tv ov) + snd (decouple_out flag tv ov) - tv\<bar> \<le> 1"
    by (rule decouple_out_consistent) (use assms in \<open>simp_all add: is_int16_def\<close>)
  have d: "\<bar>fst (decouple_out flag td od) + snd (decouple_out flag td od) - td\<bar> \<le> 1"
    by (rule decouple_out_consistent) (use assms in \<open>simp_all add: is_int16_def\<close>)
  show ?thesis
    using h v d unfolding adm_decouple_pixel_def flag_def by (simp add: Let_def)
qed

lemma angle_flag_example: "\<not> angle_flag (- 293) 5 (- 256) (- 3)"
  by (simp add: angle_flag_def cos_1deg_sq_def fp_eval)

lemma adm_decouple_pixel_example:
  "adm_decouple_pixel (- 293, 5, 7) (- 256, - 3, 2) = ((- 255, 0, 2), (0, - 3, 0))"
  unfolding adm_decouple_pixel_def
  by (simp only: prod.case Let_def angle_flag_example) (simp add: dec_eval)

theorem adm_decouple_self_consistent_witness:
  "is_int16 (- 293) \<and> is_int16 5 \<and> is_int16 7 \<and> is_int16 (- 256) \<and> is_int16 (- 3) \<and> is_int16 2
   \<and> adm_decouple_pixel (- 293, 5, 7) (- 256, - 3, 2) = ((- 255, 0, 2), (0, - 3, 0))
   \<and> \<bar>- 255 + 0 - (- 256 :: int)\<bar> \<le> 1"
proof -
  have r: "is_int16 (- 293)" "is_int16 5" "is_int16 7" "is_int16 (- 256)" "is_int16 (- 3)"
    "is_int16 2" by (simp_all add: is_int16_def)
  from adm_decouple_self_consistent [OF r]
  have "\<bar>- 255 + 0 - (- 256 :: int)\<bar> \<le> 1"
    unfolding adm_decouple_pixel_example by simp
  with r adm_decouple_pixel_example show ?thesis by simp
qed

subsection \<open>Energy pooling: the accumulator and the result\<close>

lemma s32_id: "- (2 ^ 31) \<le> x \<Longrightarrow> x < 2 ^ 31 \<Longrightarrow> s32 x = x"
  by (simp add: s32_def)

lemma fold_s32_sum:
  assumes "0 \<le> s0" and "\<forall>j \<in> set js. 0 \<le> f j" and "s0 + sum_list (map f js) < 2 ^ 31"
  shows "fold (\<lambda>j s. s32 (s + f j)) js s0 = s0 + sum_list (map f js)"
  using assms
proof (induction js arbitrary: s0)
  case Nil
  then show ?case by simp
next
  case (Cons j js)
  have nn: "0 \<le> sum_list (map f js)" using Cons.prems(2) by (intro sum_list_nonneg) auto
  have fj: "0 \<le> f j" using Cons.prems(2) by simp
  have "s0 + f j < 2 ^ 31" using Cons.prems(3) nn by simp
  then have st: "s32 (s0 + f j) = s0 + f j"
    using Cons.prems(1) fj by (intro s32_id) simp_all
  have "fold (\<lambda>j s. s32 (s + f j)) js (s0 + f j) = s0 + f j + sum_list (map f js)"
    by (rule Cons.IH) (use Cons.prems fj in simp_all)
  then show ?case by (simp add: st)
qed

lemma fold_fold_s32_sum:
  assumes "0 \<le> s0" and "\<forall>i \<in> set is. \<forall>j \<in> set js. 0 \<le> g i j"
    and "s0 + sum_list (map (\<lambda>i. sum_list (map (g i) js)) is) < 2 ^ 31"
  shows "fold (\<lambda>i. fold (\<lambda>j s. s32 (s + g i j)) js) is s0
         = s0 + sum_list (map (\<lambda>i. sum_list (map (g i) js)) is)"
  using assms
proof (induction "is" arbitrary: s0)
  case Nil
  then show ?case by simp
next
  case (Cons i "is")
  have nn: "0 \<le> sum_list (map (\<lambda>i. sum_list (map (g i) js)) is)"
    using Cons.prems(2) by (intro sum_list_nonneg) (auto intro!: sum_list_nonneg)
  have ni: "0 \<le> sum_list (map (g i) js)"
    using Cons.prems(2) by (intro sum_list_nonneg) auto
  have row: "fold (\<lambda>j s. s32 (s + g i j)) js s0 = s0 + sum_list (map (g i) js)"
    by (rule fold_s32_sum) (use Cons.prems nn in simp_all)
  have "fold (\<lambda>i. fold (\<lambda>j s. s32 (s + g i j)) js) is (s0 + sum_list (map (g i) js))
        = s0 + sum_list (map (g i) js) + sum_list (map (\<lambda>i. sum_list (map (g i) js)) is)"
    by (rule Cons.IH) (use Cons.prems ni in simp_all)
  then show ?case by (simp add: row)
qed

lemma get_cube_abs:
  assumes "\<bar>v\<bar> \<le> 1290"
  shows "get_cube (FFABS v) = \<bar>v\<bar> ^ 3"
proof -
  have a: "FFABS v = \<bar>v\<bar>" by (simp add: FFABS_def)
  have b: "s16 \<bar>v\<bar> = \<bar>v\<bar>" using assms by (simp add: s16_def)
  have "\<bar>v\<bar> ^ 3 \<le> 1290 ^ 3" using assms by (intro power_mono) simp_all
  then have c: "\<bar>v\<bar> ^ 3 < 2 ^ 31" by simp
  have d: "- (2 ^ 31) \<le> \<bar>v\<bar> ^ 3" by (rule order_trans [of _ 0]) simp_all
  have "s32 (\<bar>v\<bar> ^ 3) = \<bar>v\<bar> ^ 3" by (rule s32_id [OF d c])
  then show ?thesis
    unfolding get_cube_def a b Let_def by (simp add: power3_eq_cube)
qed


lemma fl_dyadic:
  assumes "\<bar>n\<bar> < 2 ^ p"
  shows "fl p (of_int n / 2 ^ j) = of_int n / 2 ^ j"
proof (cases "n = 0")
  case True
  then show ?thesis by (simp add: fl_zero)
next
  case False
  define x :: rat where "x = of_int n / 2 ^ j"
  have x0: "x \<noteq> 0" using False by (simp add: x_def)
  have "(of_int \<bar>n\<bar> :: rat) < of_int (2 ^ p)" using assms by (simp only: of_int_less_iff)
  then have "\<bar>of_int n :: rat\<bar> < 2 ^ p" by simp
  then have "\<bar>x\<bar> < 2 ^ p / 2 ^ j" by (simp add: x_def divide_strict_right_mono)
  also have "(2::rat) ^ p / 2 ^ j = 2 powi (int p - int j)" by (simp add: power_int_diff)
  finally have lt: "2 powi (ilog2 x) < (2::rat) powi (int p - int j)"
    using ilog2_bounds [OF x0] by simp
  have e: "ilog2 x < int p - int j"
  proof (rule ccontr)
    assume "\<not> ilog2 x < int p - int j"
    then have "int p - int j \<le> ilog2 x" by simp
    then have "(2::rat) powi (int p - int j) \<le> 2 powi (ilog2 x)"
      by (rule power_int_increasing) simp
    with lt show False by simp
  qed
  define k where "k = nat (int p - 1 - ilog2 x - int j)"
  have kk: "ilog2 x - int p + 1 = - int (k + j)" using e by (simp add: k_def)
  have u: "(2::rat) powi (ilog2 x - int p + 1) = 1 / 2 ^ (k + j)"
    unfolding kk by (simp only: power_int_minus_divide power_int_of_nat)
  have "x / (1 / 2 ^ (k + j)) = of_int (n * 2 ^ k)" by (simp add: x_def power_add)
  then have "rne (x / (1 / 2 ^ (k + j))) = n * 2 ^ k" by (simp only: rne_of_int)
  then have "fl p x = of_int (n * 2 ^ k) * (1 / 2 ^ (k + j))"
    using x0 by (simp add: fl_def Let_def u)
  then show ?thesis by (simp add: x_def power_add)
qed


lemma to_int16_of_int:
  assumes "- 32768 \<le> c" and "c \<le> 32767"
  shows "fp_to_int16 (Fin (of_int c)) = c"
  using assms by (simp add: fp_to_int16_def fp_to_int_def trunc0_def s16_def Let_def)

lemma area_div_32:
  assumes "0 \<le> A" and "A < 2 ^ 31"
  shows "fp_div 53 (fp_of_int 53 (s32 A)) (fp_lit 53 32) = Fin (of_int A / 32)"
proof -
  have sA: "s32 A = A" by (rule s32_id) (use assms in simp_all)
  have a: "fl 53 (of_int A) = of_int A" by (rule fl_of_int) (use assms in simp)
  have b: "fl 53 32 = 32" using fl_of_int [of 32 53] by simp
  have c: "fl 53 (of_int A / 2 ^ 5) = of_int A / 2 ^ 5" by (rule fl_dyadic) (use assms in simp)
  show ?thesis using c by (simp add: fp_div_def fp_of_int_def fp_lit_def sA a b)
qed

lemma adm_sum_cube_formula:
  fixes x :: "int \<Rightarrow> int" and w h px :: int
  defines "A \<equiv> (h - border h - border h) * (w - border w - border w)"
  defines "S \<equiv> sum_list (map (\<lambda>i. sum_list (map (\<lambda>j. \<bar>x (i * px + j)\<bar> ^ 3)
                        [border w..w - border w - 1])) [border h..h - border h - 1])"
  assumes A: "0 \<le> A" "A < 2 ^ 31"
    and small: "\<forall>i \<in> set [border h..h - border h - 1]. \<forall>j \<in> set [border w..w - border w - 1].
                  \<bar>x (i * px + j)\<bar> \<le> 1290"
    and tot: "S < 2 ^ 31"
  shows "adm_sum_cube x w h px
         = fp_to_int16 (fp_add 53 (fp_ceil (cbrt (Fin (of_int S))))
                                  (fp_ceil (cbrt (Fin (of_int A / 32)))))"
proof -
  define g where "g = (\<lambda>i j. get_cube (FFABS (x (i * px + j))))"
  define js where "js = [border w..w - border w - 1]"
  define "is" where "is = [border h..h - border h - 1]"
  have g_app: "\<And>i j. get_cube (FFABS (x (i * px + j))) = g i j" by (simp add: g_def)
  have gG: "g i j = \<bar>x (i * px + j)\<bar> ^ 3" if "i \<in> set is" "j \<in> set js" for i j
    unfolding g_def by (rule get_cube_abs) (use that small in \<open>simp add: is_def js_def\<close>)
  have Sg: "sum_list (map (\<lambda>i. sum_list (map (g i) js)) is) = S"
    unfolding S_def is_def [symmetric] js_def [symmetric]
    by (intro arg_cong [where f = sum_list] map_cong refl) (simp add: gG)
  have S0: "0 \<le> S"
    unfolding S_def by (intro sum_list_nonneg) (auto intro!: sum_list_nonneg)
  have fold_eq: "fold (\<lambda>i. fold (\<lambda>j s. s32 (s + g i j)) js) is 0 = S"
  proof -
    have "fold (\<lambda>i. fold (\<lambda>j s. s32 (s + g i j)) js) is 0
          = 0 + sum_list (map (\<lambda>i. sum_list (map (g i) js)) is)"
      by (rule fold_fold_s32_sum) (use gG tot Sg in simp_all)
    then show ?thesis by (simp add: Sg)
  qed
  have sS: "fp_of_int 53 S = Fin (of_int S)"
    unfolding fp_of_int_def by (subst fl_of_int) (use S0 tot in simp_all)
  have dA: "fp_div 53 (fp_of_int 53 (s32 A)) (fp_lit 53 32) = Fin (of_int A / 32)"
    by (rule area_div_32) (use A in simp_all)
  show ?thesis
    unfolding adm_sum_cube_def Let_def
    unfolding g_app js_def [symmetric] is_def [symmetric]
    unfolding fold_eq sS A_def [symmetric] dA
    by simp
qed

text \<open>Samples outside the pooled region have no influence on the result.\<close>

lemma adm_sum_cube_cong:
  assumes "\<forall>i \<in> set (crop_rows h). \<forall>j \<in> set (crop_cols w). y (i * px + j) = x (i * px + j)"
  shows "adm_sum_cube y w h px = adm_sum_cube x w h px"
proof -
  have "fold (\<lambda>i. fold (\<lambda>j s. s32 (s + get_cube (FFABS (y (i * px + j))))) (crop_cols w))
             (crop_rows h) 0
        = fold (\<lambda>i. fold (\<lambda>j s. s32 (s + get_cube (FFABS (x (i * px + j))))) (crop_cols w))
               (crop_rows h) 0"
  proof (rule fold_cong [OF refl refl])
    fix i
    assume i: "i \<in> set (crop_rows h)"
    show "fold (\<lambda>j s. s32 (s + get_cube (FFABS (y (i * px + j))))) (crop_cols w)
          = fold (\<lambda>j s. s32 (s + get_cube (FFABS (x (i * px + j))))) (crop_cols w)"
    proof (rule ext, rule fold_cong [OF refl refl])
      fix j
      assume "j \<in> set (crop_cols w)"
      with i assms have "y (i * px + j) = x (i * px + j)" by blast
      then show "(\<lambda>s. s32 (s + get_cube (FFABS (y (i * px + j)))))
                 = (\<lambda>s. s32 (s + get_cube (FFABS (x (i * px + j)))))"
        by simp
    qed
  qed
  then show ?thesis
    unfolding adm_sum_cube_def Let_def crop_rows_def crop_cols_def by simp
qed

subsection \<open>Energy pooling: evaluation\<close>

lemma cbrt_u_consts:
  "fp_lit 53 (354895765043919860 / 10 ^ 18) = Fin (3196616870414329 / 9007199254740992)"
  "fp_lit 53 (150819193781584896 / 10 ^ 17) = Fin (1698073162287661 / 1125899906842624)"
  "fp_lit 53 (211499494167371287 / 10 ^ 17) = Fin (4762545215606109 / 2251799813685248)"
  "fp_lit 53 (244693122563534430 / 10 ^ 17) = Fin (1377499819496571 / 562949953421312)"
  "fp_lit 53 (183469277483613086 / 10 ^ 17) = Fin (2065680424272835 / 1125899906842624)"
  "fp_lit 53 (784932344976639262 / 10 ^ 18) = Fin (1767510508173921 / 2251799813685248)"
  "fp_lit 53 (145263899385486377 / 10 ^ 18) = Fin (5233683545142893 / 36028797018963968)"
  by (simp_all add: fp_eval)

lemma factor_val:
  "factor = [Fin (2837089985411397 / 4503599627370496), Fin (1787254696532879 / 2251799813685248),
             Fin 1, Fin (5674179970822795 / 4503599627370496),
             Fin (7149018786131517 / 4503599627370496)]"
  by (simp add: factor_def CBRT2_def SQR_CBRT2_def fp_eval)

lemma cbrt_u_val:
  "cbrt_u xm =
     fp_add 53 (Fin (3196616870414329 / 9007199254740992))
      (fp_mul 53 (fp_sub 53 (Fin (1698073162287661 / 1125899906842624))
        (fp_mul 53 (fp_sub 53 (Fin (4762545215606109 / 2251799813685248))
          (fp_mul 53 (fp_sub 53 (Fin (1377499819496571 / 562949953421312))
            (fp_mul 53 (fp_sub 53 (Fin (2065680424272835 / 1125899906842624))
              (fp_mul 53 (fp_sub 53 (Fin (1767510508173921 / 2251799813685248))
                                    (fp_mul 53 (Fin (5233683545142893 / 36028797018963968)) xm)) xm))
              xm))
            xm))
          xm))
        xm)"
  unfolding cbrt_u_def cbrt_u_consts ..

lemmas cbrt_eval = cbrt_def cbrt_u_val cbrt_t2_def cbrt_ym_def cbrt_reduced_def factor_val
  frexp_def frexp_exp_def ldexp_def c_div_def c_rem_def fp_eval

lemma cbrt_0: "cbrt (Fin 0) = Fin 0"
  by (simp add: cbrt_def fp_add_def fl_zero)

lemma ceil_cbrt_0: "fp_ceil (cbrt (Fin 0)) = Fin 0"
  by (simp add: cbrt_0 fp_ceil_def)

text \<open>\<^verbatim>\<open>cbrt(27.0)\<close> is one unit in the last place above 3.\<close>

lemma cbrt_27: "cbrt (Fin 27) = Fin (3 + 1 / 2 ^ 51)"
  by (simp add: cbrt_eval)

lemma ceil_cbrt_1: "fp_ceil (cbrt (Fin 1)) = Fin 1"
  by (simp add: cbrt_eval)

lemma ceil_cbrt_2: "fp_ceil (cbrt (Fin 2)) = Fin 2"
  by (simp add: cbrt_eval)

lemma ceil_cbrt_27: "fp_ceil (cbrt (Fin 27)) = Fin 4"
  by (simp add: cbrt_27 fp_ceil_def fl_eval)

lemma ceil_cbrt_area_10: "fp_ceil (cbrt (Fin (25 / 8))) = Fin 2"
  by (simp add: cbrt_eval)

lemma ceil_cbrt_area_15: "fp_ceil (cbrt (Fin (169 / 32))) = Fin 2"
  by (simp add: cbrt_eval)

lemma ceil_cbrt_337500000: "fp_ceil (cbrt (Fin 337500000)) = Fin 697"
  by (simp add: cbrt_eval)

lemma ceil_cbrt_wrapped: "fp_ceil (cbrt (Fin (- 1594967296))) = Fin (- 1168)"
  by (simp add: cbrt_eval)

lemma adm_sum_cube_eval:
  fixes x :: "int \<Rightarrow> int" and w h px :: int
  assumes l: "border w = l" and t: "border h = t"
    and sm: "fold (\<lambda>i. fold (\<lambda>j s. s32 (s + get_cube (FFABS (x (i * px + j))))) [l..w - l - 1])
                  [t..h - t - 1] 0 = sm"
    and smr: "\<bar>sm\<bar> < 2 ^ 53"
    and A: "0 \<le> (h - t - t) * (w - l - l)" "(h - t - t) * (w - l - l) < 2 ^ 31"
    and c1: "fp_ceil (cbrt (Fin (of_int sm))) = Fin (of_int c1)"
    and c2: "fp_ceil (cbrt (Fin (of_int ((h - t - t) * (w - l - l)) / 32))) = Fin (of_int c2)"
    and r: "- 32768 \<le> c1 + c2" "c1 + c2 \<le> 32767"
  shows "adm_sum_cube x w h px = c1 + c2"
proof -
  define A where "A = (h - t - t) * (w - l - l)"
  have sS: "fp_of_int 53 sm = Fin (of_int sm)"
    unfolding fp_of_int_def by (subst fl_of_int) (use smr in simp_all)
  have dA: "fp_div 53 (fp_of_int 53 (s32 A)) (fp_lit 53 32) = Fin (of_int A / 32)"
    by (rule area_div_32) (use A in \<open>simp_all add: A_def\<close>)
  have add: "fp_add 53 (Fin (of_int c1)) (Fin (of_int c2)) = Fin (of_int (c1 + c2))"
  proof -
    have "fl 53 (of_int (c1 + c2)) = of_int (c1 + c2)"
      by (rule fl_of_int) (use r in simp)
    then show ?thesis by (simp add: fp_add_def)
  qed
  have "adm_sum_cube x w h px = fp_to_int16 (Fin (of_int (c1 + c2)))"
    unfolding adm_sum_cube_def Let_def l t sm sS A_def [symmetric] dA
    unfolding c1 c2 [unfolded A_def [symmetric]] add ..
  also have "\<dots> = c1 + c2" by (rule to_int16_of_int [OF r])
  finally show ?thesis .
qed

lemma border_10: "border 10 = 0"
  by (simp add: border_def ADM_BORDER_FACTOR_def fp_eval)

lemma border_15: "border 15 = 1"
  by (simp add: border_def ADM_BORDER_FACTOR_def fp_eval)

lemma get_cube_150: "get_cube (FFABS 150) = 3375000"
  by (simp add: get_cube_def FFABS_def s16_def s32_def)

lemma get_cube_300: "get_cube (FFABS 300) = 27000000"
  by (simp add: get_cube_def FFABS_def s16_def s32_def)

lemma sum_cube_150: "adm_sum_cube (\<lambda>_. 150) 10 10 16 = 697 + 2"
proof (rule adm_sum_cube_eval [OF border_10 border_10])
  show "fold (\<lambda>i. fold (\<lambda>j s. s32 (s + get_cube (FFABS ((\<lambda>_. 150) (i * 16 + j))))) [0..10 - 0 - 1])
        [0..10 - 0 - 1] 0 = 337500000"
    by (simp add: get_cube_150 s32_def upto_rec1)
  show "fp_ceil (cbrt (Fin (of_int 337500000))) = Fin (of_int 697)"
    by (simp add: ceil_cbrt_337500000)
  show "fp_ceil (cbrt (Fin (of_int ((10 - 0 - 0) * (10 - 0 - 0)) / 32))) = Fin (of_int 2)"
    by (simp add: ceil_cbrt_area_10)
qed simp_all

lemma sum_cube_300: "adm_sum_cube (\<lambda>_. 300) 10 10 16 = - 1168 + 2"
proof (rule adm_sum_cube_eval [OF border_10 border_10])
  show "fold (\<lambda>i. fold (\<lambda>j s. s32 (s + get_cube (FFABS ((\<lambda>_. 300) (i * 16 + j))))) [0..10 - 0 - 1])
        [0..10 - 0 - 1] 0 = - 1594967296"
    by (simp add: get_cube_300 s32_def upto_rec1)
  show "fp_ceil (cbrt (Fin (of_int (- 1594967296)))) = Fin (of_int (- 1168))"
    by (simp add: ceil_cbrt_wrapped)
  show "fp_ceil (cbrt (Fin (of_int ((10 - 0 - 0) * (10 - 0 - 0)) / 32))) = Fin (of_int 2)"
    by (simp add: ceil_cbrt_area_10)
qed simp_all

lemma sum_cube_corner: "adm_sum_cube (\<lambda>a. if a = 0 then 1 else 0) 10 10 16 = 1 + 2"
proof (rule adm_sum_cube_eval [OF border_10 border_10])
  show "fold (\<lambda>i. fold (\<lambda>j s. s32 (s + get_cube (FFABS ((\<lambda>a. if a = 0 then 1 else 0) (i * 16 + j)))))
                    [0..10 - 0 - 1]) [0..10 - 0 - 1] 0 = 1"
    by (simp add: get_cube_def FFABS_def s16_def s32_def upto_rec1)
  show "fp_ceil (cbrt (Fin (of_int 1))) = Fin (of_int 1)"
    by (simp add: ceil_cbrt_1)
  show "fp_ceil (cbrt (Fin (of_int ((10 - 0 - 0) * (10 - 0 - 0)) / 32))) = Fin (of_int 2)"
    by (simp add: ceil_cbrt_area_10)
qed simp_all

text \<open>
  A 10x10 band whose only non-zero sample is a 3 in the corner: the sum of cubes is 27,
  and the result is \<open>4 + 2\<close>.
\<close>

lemma sum_cube_corner_3: "adm_sum_cube (\<lambda>a. if a = 0 then 3 else 0) 10 10 16 = 4 + 2"
proof (rule adm_sum_cube_eval [OF border_10 border_10])
  show "fold (\<lambda>i. fold (\<lambda>j s. s32 (s + get_cube (FFABS ((\<lambda>a. if a = 0 then 3 else 0) (i * 16 + j)))))
                    [0..10 - 0 - 1]) [0..10 - 0 - 1] 0 = 27"
    by (simp add: get_cube_def FFABS_def s16_def s32_def upto_rec1)
  show "fp_ceil (cbrt (Fin (of_int 27))) = Fin (of_int 4)"
    by (simp add: ceil_cbrt_27)
  show "fp_ceil (cbrt (Fin (of_int ((10 - 0 - 0) * (10 - 0 - 0)) / 32))) = Fin (of_int 2)"
    by (simp add: ceil_cbrt_area_10)
qed simp_all

lemma spec_range_10: "spec_range 10 = [1, 2, 3, 4, 5, 6, 7, 8]"
  by (simp add: spec_range_def upto_rec1)

lemma sum_cube_spec_corner: "sum_cube_spec (\<lambda>a. if a = 0 then 1 else 0) 10 10 16 = 0 + 2"
proof -
  have s: "spec_sum (\<lambda>a. if a = 0 then 1 else 0) 10 10 16 = 0"
    by (simp add: spec_sum_def spec_range_10)
  have a: "spec_area 10 10 = 64" by (simp add: spec_area_def)
  have "fp_add 53 (Fin 0) (Fin 2) = Fin 2" by (simp add: fp_eval)
  then show ?thesis
    unfolding sum_cube_spec_def s a by (simp add: ceil_cbrt_0 ceil_cbrt_2 fp_to_int_def trunc0_def)
qed

subsection \<open>Energy pooling: the pooled region\<close>

text \<open>
  Claim C3 says that the pooled region is rows \<open>[\<lceil>h \<cdot> 0.1\<rceil>, h - \<lceil>h \<cdot> 0.1\<rceil>)\<close> and
  columns \<open>[\<lceil>w \<cdot> 0.1\<rceil>, w - \<lceil>w \<cdot> 0.1\<rceil>)\<close>. The code takes
  \<^verbatim>\<open>(int)(h * 0.1 - 0.5)\<close> as the border, which is 0 for \<open>h = 10\<close> where
  \<open>\<lceil>10 \<cdot> 0.1\<rceil> = 1\<close>: on a 10x10 band whose only non-zero sample is a 1 in the corner
  \<open>(0, 0)\<close> the code pools the corner and returns 3, the formula of the claim leaves
  the corner out and gives 2.
\<close>

theorem adm_sum_cube_region_counterexample:
  "border 10 = 0 \<and> \<lceil>of_int 10 * (1 / 10 :: rat)\<rceil> = 1
   \<and> adm_sum_cube (\<lambda>a. if a = 0 then 1 else 0) 10 10 16 = 3
   \<and> sum_cube_spec (\<lambda>a. if a = 0 then 1 else 0) 10 10 16 = 2
   \<and> adm_sum_cube (\<lambda>a. if a = 0 then 1 else 0) 10 10 16
       \<noteq> sum_cube_spec (\<lambda>a. if a = 0 then 1 else 0) 10 10 16"
  by (simp add: border_10 sum_cube_corner sum_cube_spec_corner)

text \<open>
  Claim C3, amended. With \<open>top = (int)(h * 0.1 - 0.5)\<close> and
  \<open>left = (int)(w * 0.1 - 0.5)\<close>, \<^verbatim>\<open>adm_sum_cube\<close> returns
  \<^verbatim>\<open>ceil(cbrt(S)) + ceil(cbrt(area / 32))\<close> converted to \<^verbatim>\<open>int16_t\<close>, where \<open>S\<close> is the
  sum of \<open>\<bar>x\<bar>\<^sup>3\<close> over exactly the rows \<open>[top, h - top)\<close> and the columns
  \<open>[left, w - left)\<close>, \<open>area\<close> is the area of that region and \<^verbatim>\<open>cbrt\<close> is the function
  of the C library; a band that agrees with \<open>x\<close> on that region has the same result.
  This holds provided the 32-bit computations do not overflow: the area is below \<open>2\<^sup>3\<^sup>1\<close>,
  every pooled sample has magnitude at most 1290 and the sum of the cubes is below
  \<open>2\<^sup>3\<^sup>1\<close>.
\<close>

theorem adm_sum_cube_region:
  fixes x :: "int \<Rightarrow> int" and w h px :: int
  assumes "0 \<le> crop_area w h" and "crop_area w h < 2 ^ 31"
    and "\<forall>i \<in> set (crop_rows h). \<forall>j \<in> set (crop_cols w). \<bar>x (i * px + j)\<bar> \<le> 1290"
    and "cube_sum x w h px < 2 ^ 31"
  shows "adm_sum_cube x w h px
         = fp_to_int16 (fp_add 53 (fp_ceil (cbrt (Fin (of_int (cube_sum x w h px)))))
                                  (fp_ceil (cbrt (Fin (of_int (crop_area w h) / 32)))))
         \<and> (\<forall>y. (\<forall>i \<in> set (crop_rows h). \<forall>j \<in> set (crop_cols w). y (i * px + j) = x (i * px + j))
                \<longrightarrow> adm_sum_cube y w h px = adm_sum_cube x w h px)"
proof
  show "adm_sum_cube x w h px
        = fp_to_int16 (fp_add 53 (fp_ceil (cbrt (Fin (of_int (cube_sum x w h px)))))
                                 (fp_ceil (cbrt (Fin (of_int (crop_area w h) / 32)))))"
    unfolding cube_sum_def crop_area_def crop_rows_def crop_cols_def
    by (rule adm_sum_cube_formula)
       (use assms in \<open>simp_all add: cube_sum_def crop_area_def crop_rows_def crop_cols_def\<close>)
  show "\<forall>y. (\<forall>i \<in> set (crop_rows h). \<forall>j \<in> set (crop_cols w). y (i * px + j) = x (i * px + j))
             \<longrightarrow> adm_sum_cube y w h px = adm_sum_cube x w h px"
    using adm_sum_cube_cong by blast
qed

text \<open>
  A 15x15 band (stride 16) with a 3 at row 1, column 1 and a 1000 in the corner
  \<open>(0, 0)\<close>: the border is 1, so that the pooled rows and columns are 1 to 13, the corner
  is left out, the sum of cubes is 27 and the result is \<open>4 + 2\<close>; the band without the
  corner sample has the same result.
\<close>

theorem adm_sum_cube_region_witness:
  "border 15 = 1 \<and> crop_rows 15 = [1, 2, 3, 4, 5, 6, 7, 8, 9, 10, 11, 12, 13]
   \<and> crop_area 15 15 = 169 \<and> 0 \<le> crop_area 15 15 \<and> crop_area 15 15 < 2 ^ 31
   \<and> cube_sum (\<lambda>a. if a = 0 then 1000 else if a = 17 then 3 else 0) 15 15 16 = 27
   \<and> adm_sum_cube (\<lambda>a. if a = 0 then 1000 else if a = 17 then 3 else 0) 15 15 16 = 6
   \<and> adm_sum_cube (\<lambda>a. if a = 17 then 3 else 0) 15 15 16 = 6"
proof -
  define x :: "int \<Rightarrow> int" where "x = (\<lambda>a. if a = 0 then 1000 else if a = 17 then 3 else 0)"
  define y :: "int \<Rightarrow> int" where "y = (\<lambda>a. if a = 17 then 3 else 0)"
  have a: "crop_area 15 15 = 169" by (simp add: crop_area_def border_15)
  have r: "crop_rows 15 = [1, 2, 3, 4, 5, 6, 7, 8, 9, 10, 11, 12, 13]"
    by (simp add: crop_rows_def border_15 upto_rec1)
  have c: "crop_cols 15 = [1, 2, 3, 4, 5, 6, 7, 8, 9, 10, 11, 12, 13]"
    by (simp add: crop_cols_def border_15 upto_rec1)
  have s: "cube_sum x 15 15 16 = 27"
    by (simp add: cube_sum_def r c x_def)
  have sm: "\<forall>i \<in> set (crop_rows 15). \<forall>j \<in> set (crop_cols 15). \<bar>x (i * 16 + j)\<bar> \<le> 1290"
    by (simp add: r c x_def)
  have eq: "\<forall>i \<in> set (crop_rows 15). \<forall>j \<in> set (crop_cols 15). y (i * 16 + j) = x (i * 16 + j)"
    by (simp add: r c x_def y_def)
  have h1: "0 \<le> crop_area 15 15" and h2: "crop_area 15 15 < 2 ^ 31" by (simp_all add: a)
  have h4: "cube_sum x 15 15 16 < 2 ^ 31" by (simp add: s)
  have v: "fp_to_int16 (fp_add 53 (fp_ceil (cbrt (Fin (of_int 27))))
                                  (fp_ceil (cbrt (Fin (of_int 169 / 32))))) = 6"
    by (simp add: ceil_cbrt_27 ceil_cbrt_area_15 fp_add_def fp_to_int16_def fp_to_int_def
          trunc0_def s16_def fl_eval)
  from adm_sum_cube_region [OF h1 h2 sm h4]
  have "adm_sum_cube x 15 15 16 = 6" and "adm_sum_cube y 15 15 16 = 6"
    using eq by (simp_all only: s a v)
  with h1 h2 s a r border_15 show ?thesis unfolding x_def y_def by blast
qed

subsection \<open>Energy pooling: monotonicity\<close>

text \<open>
  Claim C9 says that scaling every magnitude of a band by a constant \<open>c > 1\<close> does not
  decrease the pooled result. On a 10x10 band whose samples are all 150 the result is
  699; with every sample doubled to 300 the \<^verbatim>\<open>int\<close> accumulator exceeds \<open>2\<^sup>3\<^sup>1\<close>,
  wraps to \<open>-1594967296\<close>, and the result is \<open>-1166\<close>.
\<close>

theorem adm_sum_cube_overflow:
  "adm_sum_cube (\<lambda>_. 150) 10 10 16 = 699
   \<and> adm_sum_cube (\<lambda>_. 2 * 150) 10 10 16 = - 1166
   \<and> adm_sum_cube (\<lambda>_. 2 * 150) 10 10 16 < adm_sum_cube (\<lambda>_. 150) 10 10 16"
  using sum_cube_150 sum_cube_300 by simp

end
